theory Spec2Isabelle
  imports Complex_Main "HOL-Library.Monad_Syntax" "HOL-Library.Word"
begin

section \<open>Memory model\<close>

text \<open>
  The packed mechanism buffer is one contiguous region that holds C \<open>int\<close>s and
  \<open>realtype\<close>s side by side.  It is modelled as a list of typed cells; a pointer
  into the buffer is a cell offset (an \<open>int\<close>, since the record sizes are computed
  in C \<open>int\<close> arithmetic from values stored in the buffer).  Reading outside the
  buffer, or reading a cell through the wrong type, is undefined behaviour in C
  and is the value \<open>None\<close> here.  \<open>realtype\<close> is modelled by \<open>real\<close> (exact
  arithmetic); C \<open>int\<close> by \<open>int\<close> (no record that fits in memory overflows the
  index arithmetic).
\<close>

datatype cell = IntCell int | RealCell real

type_synonym buffer = "cell list"

definition int_at :: "buffer \<Rightarrow> int \<Rightarrow> int option" where
  "int_at buf a =
     (if 0 \<le> a \<and> a < int (length buf)
      then (case buf ! nat a of IntCell v \<Rightarrow> Some v | RealCell _ \<Rightarrow> None)
      else None)"

definition real_at :: "buffer \<Rightarrow> int \<Rightarrow> real option" where
  "real_at buf a =
     (if 0 \<le> a \<and> a < int (length buf)
      then (case buf ! nat a of RealCell v \<Rightarrow> Some v | IntCell _ \<Rightarrow> None)
      else None)"

definition real_store :: "buffer \<Rightarrow> int \<Rightarrow> real \<Rightarrow> buffer option" where
  "real_store buf a v =
     (if 0 \<le> a \<and> a < int (length buf)
      then (case buf ! nat a of RealCell _ \<Rightarrow> Some (buf[nat a := RealCell v])
                              | IntCell _ \<Rightarrow> None)
      else None)"

text \<open>Plain C arrays (\<open>state\<close>, \<open>deriv\<close>, the sparse data array, \<open>var_type\<close>, ...)
  are lists indexed by a C \<open>int\<close>; an access out of range is \<open>None\<close>.\<close>

definition arr_get :: "'a list \<Rightarrow> int \<Rightarrow> 'a option" where
  "arr_get xs i = (if 0 \<le> i \<and> i < int (length xs) then Some (xs ! nat i) else None)"

definition arr_set :: "'a list \<Rightarrow> int \<Rightarrow> 'a \<Rightarrow> 'a list option" where
  "arr_set xs i v = (if 0 \<le> i \<and> i < int (length xs) then Some (xs[nat i := v]) else None)"

section \<open>Arrhenius reaction records (rxn_arrhenius.c)\<close>

text \<open>
  The accessor macros of \<open>rxn_arrhenius.c\<close>.  \<open>p\<close> is \<open>int_data\<close>, the address of
  the record; \<open>fd\<close> is \<open>float_data = &int_data[_INT_DATA_SIZE_]\<close>.  Every function
  reads \<open>_NUM_REACT_ = int_data[0]\<close> and \<open>_NUM_PROD_ = int_data[1]\<close>; none of them
  writes an integer cell, so the two counts are read once at function entry and
  passed to the macros that mention them.
\<close>

definition NUM_INT_PROP :: int where "NUM_INT_PROP = 2"
definition NUM_FLOAT_PROP :: int where "NUM_FLOAT_PROP = 7"

definition NUM_REACT :: "buffer \<Rightarrow> int \<Rightarrow> int option" where
  "NUM_REACT buf p = int_at buf (p + 0)"

definition NUM_PROD :: "buffer \<Rightarrow> int \<Rightarrow> int option" where
  "NUM_PROD buf p = int_at buf (p + 1)"

definition INT_DATA_SIZE :: "int \<Rightarrow> int \<Rightarrow> int" where
  "INT_DATA_SIZE nr np = NUM_INT_PROP + (nr + 2) * (nr + np)"

definition FLOAT_DATA_SIZE :: "int \<Rightarrow> int" where
  "FLOAT_DATA_SIZE np = NUM_FLOAT_PROP + np"

definition REACT :: "buffer \<Rightarrow> int \<Rightarrow> int \<Rightarrow> int option" where
  "REACT buf p x = int_at buf (p + (NUM_INT_PROP + x))"

definition PROD_at :: "buffer \<Rightarrow> int \<Rightarrow> int \<Rightarrow> int \<Rightarrow> int option" where
  "PROD_at buf p nr x = int_at buf (p + (NUM_INT_PROP + nr + x))"

definition DERIV_ID :: "buffer \<Rightarrow> int \<Rightarrow> int \<Rightarrow> int \<Rightarrow> int \<Rightarrow> int option" where
  "DERIV_ID buf p nr np x = int_at buf (p + (NUM_INT_PROP + nr + np + x))"

definition JAC_ID :: "buffer \<Rightarrow> int \<Rightarrow> int \<Rightarrow> int \<Rightarrow> int \<Rightarrow> int option" where
  "JAC_ID buf p nr np x = int_at buf (p + (NUM_INT_PROP + 2 * (nr + np) + x))"

definition A_param :: "buffer \<Rightarrow> int \<Rightarrow> real option" where "A_param buf fd = real_at buf (fd + 0)"
definition B_param :: "buffer \<Rightarrow> int \<Rightarrow> real option" where "B_param buf fd = real_at buf (fd + 1)"
definition C_param :: "buffer \<Rightarrow> int \<Rightarrow> real option" where "C_param buf fd = real_at buf (fd + 2)"
definition D_param :: "buffer \<Rightarrow> int \<Rightarrow> real option" where "D_param buf fd = real_at buf (fd + 3)"
definition E_param :: "buffer \<Rightarrow> int \<Rightarrow> real option" where "E_param buf fd = real_at buf (fd + 4)"
definition CONV :: "buffer \<Rightarrow> int \<Rightarrow> real option" where "CONV buf fd = real_at buf (fd + 5)"

definition RATE_CONSTANT :: "buffer \<Rightarrow> int \<Rightarrow> real option" where
  "RATE_CONSTANT buf fd = real_at buf (fd + 6)"

definition yield :: "buffer \<Rightarrow> int \<Rightarrow> int \<Rightarrow> real option" where
  "yield buf fd x = real_at buf (fd + (NUM_FLOAT_PROP + x))"

text \<open>\<open>rxn_arrhenius_skip\<close>: the record pointer advanced past the record.\<close>

definition rxn_arrhenius_skip :: "buffer \<Rightarrow> int \<Rightarrow> int option" where
  "rxn_arrhenius_skip buf p = do {
     nr \<leftarrow> NUM_REACT buf p;
     np \<leftarrow> NUM_PROD buf p;
     let fd = p + INT_DATA_SIZE nr np;
     Some (fd + FLOAT_DATA_SIZE np)
   }"

text \<open>The rate loop shared (as text) by the derivative and the Jacobian functions:
  \<open>for (i_spec = 0; i_spec < _NUM_REACT_; i_spec++) rate *= state[_REACT_(i_spec)];\<close>\<close>

function rate_loop :: "real list \<Rightarrow> buffer \<Rightarrow> int \<Rightarrow> int \<Rightarrow> int \<Rightarrow> real \<Rightarrow> real option" where
  "rate_loop state buf p nr i_spec rate =
     (if i_spec < nr then do {
        r \<leftarrow> REACT buf p i_spec;
        c \<leftarrow> arr_get state r;
        rate_loop state buf p nr (i_spec + 1) (rate * c)
      } else Some rate)"
  by pat_completeness auto
termination
  by (relation "measure (\<lambda>(state, buf, p, nr, i_spec, rate). nat (nr - i_spec))") auto

text \<open>\<open>rxn_arrhenius_calc_deriv_contrib\<close>.  The first loop runs over the reactants,
  the second loop has the same bound \<open>_NUM_REACT_\<close> in the source and indexes
  \<open>_yield_\<close> by its own counter.\<close>

function deriv_loop1 ::
  "buffer \<Rightarrow> int \<Rightarrow> int \<Rightarrow> int \<Rightarrow> real \<Rightarrow> int \<Rightarrow> int \<Rightarrow> real list \<Rightarrow> (real list \<times> int) option" where
  "deriv_loop1 buf p nr np rate i_spec i_dep_var deriv =
     (if i_spec < nr then do {
        slot \<leftarrow> DERIV_ID buf p nr np i_dep_var;
        old \<leftarrow> arr_get deriv slot;
        deriv' \<leftarrow> arr_set deriv slot (old - rate);
        deriv_loop1 buf p nr np rate (i_spec + 1) (i_dep_var + 1) deriv'
      } else Some (deriv, i_dep_var))"
  by pat_completeness auto
termination
  by (relation "measure (\<lambda>(buf, p, nr, np, rate, i_spec, i_dep_var, deriv). nat (nr - i_spec))") auto

function deriv_loop2 ::
  "buffer \<Rightarrow> int \<Rightarrow> int \<Rightarrow> int \<Rightarrow> int \<Rightarrow> real \<Rightarrow> int \<Rightarrow> int \<Rightarrow> real list \<Rightarrow> (real list \<times> int) option" where
  "deriv_loop2 buf p nr np fd rate i_spec i_dep_var deriv =
     (if i_spec < nr then do {
        slot \<leftarrow> DERIV_ID buf p nr np i_dep_var;
        y \<leftarrow> yield buf fd i_spec;
        old \<leftarrow> arr_get deriv slot;
        deriv' \<leftarrow> arr_set deriv slot (old + rate * y);
        deriv_loop2 buf p nr np fd rate (i_spec + 1) (i_dep_var + 1) deriv'
      } else Some (deriv, i_dep_var))"
  by pat_completeness auto
termination
  by (relation "measure (\<lambda>(buf, p, nr, np, fd, rate, i_spec, i_dep_var, deriv). nat (nr - i_spec))") auto

definition rxn_arrhenius_calc_deriv_contrib ::
  "real list \<Rightarrow> real list \<Rightarrow> buffer \<Rightarrow> int \<Rightarrow> (real list \<times> int) option" where
  "rxn_arrhenius_calc_deriv_contrib state deriv buf p = do {
     nr \<leftarrow> NUM_REACT buf p;
     np \<leftarrow> NUM_PROD buf p;
     let fd = p + INT_DATA_SIZE nr np;
     k \<leftarrow> RATE_CONSTANT buf fd;
     rate \<leftarrow> rate_loop state buf p nr 0 k;
     deriv' \<leftarrow> (if rate \<noteq> 0 then do {
         (d1, i_dep_var) \<leftarrow> deriv_loop1 buf p nr np rate 0 0 deriv;
         (d2, i_dep_var') \<leftarrow> deriv_loop2 buf p nr np fd rate 0 i_dep_var d1;
         Some d2
       } else Some deriv);
     Some (deriv', fd + FLOAT_DATA_SIZE np)
   }"

text \<open>\<open>rxn_arrhenius_calc_jac_contrib\<close>.  Each of the two nests is an outer loop over
  the dependent species and an inner loop over the independent reactants; the
  counter \<open>i_elem\<close> runs through both nests.\<close>

function jac_react_inner ::
  "real list \<Rightarrow> buffer \<Rightarrow> int \<Rightarrow> int \<Rightarrow> int \<Rightarrow> real \<Rightarrow> int \<Rightarrow> int \<Rightarrow> real list \<Rightarrow> (real list \<times> int) option" where
  "jac_react_inner state buf p nr np rate i_ind i_elem J =
     (if i_ind < nr then do {
        slot \<leftarrow> JAC_ID buf p nr np i_elem;
        r \<leftarrow> REACT buf p i_ind;
        c \<leftarrow> arr_get state r;
        old \<leftarrow> arr_get J slot;
        J' \<leftarrow> arr_set J slot (old - rate / c);
        jac_react_inner state buf p nr np rate (i_ind + 1) (i_elem + 1) J'
      } else Some (J, i_elem))"
  by pat_completeness auto
termination
  by (relation "measure (\<lambda>(state, buf, p, nr, np, rate, i_ind, i_elem, J). nat (nr - i_ind))") auto

function jac_react_outer ::
  "real list \<Rightarrow> buffer \<Rightarrow> int \<Rightarrow> int \<Rightarrow> int \<Rightarrow> real \<Rightarrow> int \<Rightarrow> int \<Rightarrow> real list \<Rightarrow> (real list \<times> int) option" where
  "jac_react_outer state buf p nr np rate i_dep i_elem J =
     (if i_dep < nr then do {
        (J', i_elem') \<leftarrow> jac_react_inner state buf p nr np rate 0 i_elem J;
        jac_react_outer state buf p nr np rate (i_dep + 1) i_elem' J'
      } else Some (J, i_elem))"
  by pat_completeness auto
termination
  by (relation "measure (\<lambda>(state, buf, p, nr, np, rate, i_dep, i_elem, J). nat (nr - i_dep))") auto

function jac_prod_inner ::
  "real list \<Rightarrow> buffer \<Rightarrow> int \<Rightarrow> int \<Rightarrow> int \<Rightarrow> int \<Rightarrow> real \<Rightarrow> int \<Rightarrow> int \<Rightarrow> int \<Rightarrow> real list \<Rightarrow> (real list \<times> int) option" where
  "jac_prod_inner state buf p nr np fd rate i_dep i_ind i_elem J =
     (if i_ind < nr then do {
        slot \<leftarrow> JAC_ID buf p nr np i_elem;
        y \<leftarrow> yield buf fd i_dep;
        r \<leftarrow> REACT buf p i_ind;
        c \<leftarrow> arr_get state r;
        old \<leftarrow> arr_get J slot;
        J' \<leftarrow> arr_set J slot (old + y * rate / c);
        jac_prod_inner state buf p nr np fd rate i_dep (i_ind + 1) (i_elem + 1) J'
      } else Some (J, i_elem))"
  by pat_completeness auto
termination
  by (relation "measure (\<lambda>(state, buf, p, nr, np, fd, rate, i_dep, i_ind, i_elem, J). nat (nr - i_ind))") auto

function jac_prod_outer ::
  "real list \<Rightarrow> buffer \<Rightarrow> int \<Rightarrow> int \<Rightarrow> int \<Rightarrow> int \<Rightarrow> real \<Rightarrow> int \<Rightarrow> int \<Rightarrow> real list \<Rightarrow> (real list \<times> int) option" where
  "jac_prod_outer state buf p nr np fd rate i_dep i_elem J =
     (if i_dep < np then do {
        (J', i_elem') \<leftarrow> jac_prod_inner state buf p nr np fd rate i_dep 0 i_elem J;
        jac_prod_outer state buf p nr np fd rate (i_dep + 1) i_elem' J'
      } else Some (J, i_elem))"
  by pat_completeness auto
termination
  by (relation "measure (\<lambda>(state, buf, p, nr, np, fd, rate, i_dep, i_elem, J). nat (np - i_dep))") auto

definition rxn_arrhenius_calc_jac_contrib ::
  "real list \<Rightarrow> real list \<Rightarrow> buffer \<Rightarrow> int \<Rightarrow> (real list \<times> int) option" where
  "rxn_arrhenius_calc_jac_contrib state J buf p = do {
     nr \<leftarrow> NUM_REACT buf p;
     np \<leftarrow> NUM_PROD buf p;
     let fd = p + INT_DATA_SIZE nr np;
     k \<leftarrow> RATE_CONSTANT buf fd;
     rate \<leftarrow> rate_loop state buf p nr 0 k;
     J' \<leftarrow> (if rate \<noteq> 0 then do {
         (J1, i_elem) \<leftarrow> jac_react_outer state buf p nr np rate 0 0 J;
         (J2, i_elem') \<leftarrow> jac_prod_outer state buf p nr np fd rate 0 i_elem J1;
         Some J2
       } else Some J);
     Some (J', fd + FLOAT_DATA_SIZE np)
   }"

text \<open>\<open>rxn_arrhenius_get_used_jac_elem\<close>.  \<open>jac_struct\<close> is an array of rows of
  flags; the source indexes it with the loop counters themselves.  The two inner
  loops have the same body and differ in their bound.\<close>

definition jac_struct_set :: "bool list list \<Rightarrow> int \<Rightarrow> int \<Rightarrow> bool list list option" where
  "jac_struct_set js i j = do {
     row \<leftarrow> arr_get js i;
     row' \<leftarrow> arr_set row j True;
     arr_set js i row'
   }"

function used_inner :: "int \<Rightarrow> int \<Rightarrow> int \<Rightarrow> bool list list \<Rightarrow> bool list list option" where
  "used_inner bound i_ind i_dep js =
     (if i_dep < bound then do {
        js' \<leftarrow> jac_struct_set js i_dep i_ind;
        used_inner bound i_ind (i_dep + 1) js'
      } else Some js)"
  by pat_completeness auto
termination
  by (relation "measure (\<lambda>(bound, i_ind, i_dep, js). nat (bound - i_dep))") auto

function used_outer :: "int \<Rightarrow> int \<Rightarrow> int \<Rightarrow> bool list list \<Rightarrow> bool list list option" where
  "used_outer nr np i_ind js =
     (if i_ind < nr then do {
        js1 \<leftarrow> used_inner nr i_ind 0 js;
        js2 \<leftarrow> used_inner np i_ind 0 js1;
        used_outer nr np (i_ind + 1) js2
      } else Some js)"
  by pat_completeness auto
termination
  by (relation "measure (\<lambda>(nr, np, i_ind, js). nat (nr - i_ind))") auto

definition rxn_arrhenius_get_used_jac_elem ::
  "buffer \<Rightarrow> int \<Rightarrow> bool list list \<Rightarrow> (bool list list \<times> int) option" where
  "rxn_arrhenius_get_used_jac_elem buf p jac_struct = do {
     nr \<leftarrow> NUM_REACT buf p;
     np \<leftarrow> NUM_PROD buf p;
     let fd = p + INT_DATA_SIZE nr np;
     js \<leftarrow> used_outer nr np 0 jac_struct;
     Some (js, fd + FLOAT_DATA_SIZE np)
   }"

text \<open>\<open>rxn_arrhenius_update_env_state\<close>.  \<open>SUNRexp\<close>, \<open>SUNRpowerR\<close> and
  \<open>SUNRpowerI\<close> belong to the SUNDIALS math library, not to this repository; they
  are written here in exact arithmetic after the library's documented
  behaviour: \<open>SUNRpowerR\<close> returns zero for a base that is not positive, and
  \<open>SUNRpowerI\<close> multiplies \<open>|exponent|\<close> times and inverts for a negative
  exponent.\<close>

definition SUNRexp :: "real \<Rightarrow> real" where
  "SUNRexp x = exp x"

definition SUNRpowerR :: "real \<Rightarrow> real \<Rightarrow> real" where
  "SUNRpowerR base exponent = (if base \<le> 0 then 0 else base powr exponent)"

definition SUNRpowerI :: "real \<Rightarrow> int \<Rightarrow> real" where
  "SUNRpowerI base exponent =
     (let prod = base ^ nat \<bar>exponent\<bar>
      in if exponent < 0 then 1 / prod else prod)"

definition rxn_arrhenius_update_env_state :: "real list \<Rightarrow> buffer \<Rightarrow> int \<Rightarrow> (buffer \<times> int) option" where
  "rxn_arrhenius_update_env_state env_data buf p = do {
     nr \<leftarrow> NUM_REACT buf p;
     np \<leftarrow> NUM_PROD buf p;
     let fd = p + INT_DATA_SIZE nr np;
     a \<leftarrow> A_param buf fd;
     c \<leftarrow> C_param buf fd;
     TEMPERATURE_K \<leftarrow> arr_get env_data 0;
     b \<leftarrow> B_param buf fd;
     fb \<leftarrow> (if b = 0 then Some 1
            else do { d \<leftarrow> D_param buf fd; Some (SUNRpowerR (TEMPERATURE_K / d) b) });
     e \<leftarrow> E_param buf fd;
     fe \<leftarrow> (if e = 0 then Some 1
            else do { PRESSURE_PA \<leftarrow> arr_get env_data 1; Some (1 + e * PRESSURE_PA) });
     conv \<leftarrow> CONV buf fd;
     PRESSURE_PA \<leftarrow> arr_get env_data 1;
     buf' \<leftarrow> real_store buf (fd + 6)
        (a * SUNRexp (c / TEMPERATURE_K) * fb * fe
           * SUNRpowerI (conv * PRESSURE_PA / TEMPERATURE_K) (nr - 1));
     Some (buf', fd + FLOAT_DATA_SIZE np)
   }"

section \<open>The mechanism dispatch layer\<close>

text \<open>
  Modelled from the spec: the functions \<open>rxn_get_used_jac_elem\<close>,
  \<open>rxn_update_env_state\<close>, \<open>rxn_calc_deriv\<close> and \<open>rxn_calc_jac\<close> that
  \<open>phlex_solver.c\<close> calls are declared in \<open>rxn_solver.h\<close> and are not among the
  sources.  The spec describes the buffer as one header (the reaction count)
  followed by self-delimiting records with no per-record tag, and each pass as a
  single walk that applies the record's operation and advances by the pointer the
  operation returns.  \<open>solver_initialize\<close> stores the count in cell 0 and starts
  the records at cell 1.  The Arrhenius kind is the only kind in the sources.
\<close>

function walk_used_jac :: "buffer \<Rightarrow> int \<Rightarrow> int \<Rightarrow> int \<Rightarrow> bool list list \<Rightarrow> bool list list option" where
  "walk_used_jac buf n_rxn i_rxn p jac_struct =
     (if i_rxn < n_rxn then do {
        (js, q) \<leftarrow> rxn_arrhenius_get_used_jac_elem buf p jac_struct;
        walk_used_jac buf n_rxn (i_rxn + 1) q js
      } else Some jac_struct)"
  by pat_completeness auto
termination
  by (relation "measure (\<lambda>(buf, n_rxn, i_rxn, p, js). nat (n_rxn - i_rxn))") auto

definition rxn_get_used_jac_elem :: "buffer \<Rightarrow> bool list list \<Rightarrow> bool list list option" where
  "rxn_get_used_jac_elem rxn_data jac_struct = do {
     n_rxn \<leftarrow> int_at rxn_data 0;
     walk_used_jac rxn_data n_rxn 0 1 jac_struct
   }"

function walk_update_env :: "real list \<Rightarrow> buffer \<Rightarrow> int \<Rightarrow> int \<Rightarrow> int \<Rightarrow> buffer option" where
  "walk_update_env env buf n_rxn i_rxn p =
     (if i_rxn < n_rxn then do {
        (buf', q) \<leftarrow> rxn_arrhenius_update_env_state env buf p;
        walk_update_env env buf' n_rxn (i_rxn + 1) q
      } else Some buf)"
  by pat_completeness auto
termination
  by (relation "measure (\<lambda>(env, buf, n_rxn, i_rxn, p). nat (n_rxn - i_rxn))") auto

definition rxn_update_env_state :: "real list \<Rightarrow> buffer \<Rightarrow> buffer option" where
  "rxn_update_env_state env rxn_data = do {
     n_rxn \<leftarrow> int_at rxn_data 0;
     walk_update_env env rxn_data n_rxn 0 1
   }"

function walk_calc_deriv :: "real list \<Rightarrow> buffer \<Rightarrow> int \<Rightarrow> int \<Rightarrow> int \<Rightarrow> real list \<Rightarrow> real list option" where
  "walk_calc_deriv state buf n_rxn i_rxn p deriv =
     (if i_rxn < n_rxn then do {
        (deriv', q) \<leftarrow> rxn_arrhenius_calc_deriv_contrib state deriv buf p;
        walk_calc_deriv state buf n_rxn (i_rxn + 1) q deriv'
      } else Some deriv)"
  by pat_completeness auto
termination
  by (relation "measure (\<lambda>(state, buf, n_rxn, i_rxn, p, deriv). nat (n_rxn - i_rxn))") auto

function walk_calc_jac :: "real list \<Rightarrow> buffer \<Rightarrow> int \<Rightarrow> int \<Rightarrow> int \<Rightarrow> real list \<Rightarrow> real list option" where
  "walk_calc_jac state buf n_rxn i_rxn p J =
     (if i_rxn < n_rxn then do {
        (J', q) \<leftarrow> rxn_arrhenius_calc_jac_contrib state J buf p;
        walk_calc_jac state buf n_rxn (i_rxn + 1) q J'
      } else Some J)"
  by pat_completeness auto
termination
  by (relation "measure (\<lambda>(state, buf, n_rxn, i_rxn, p, J). nat (n_rxn - i_rxn))") auto

section \<open>The solver interface (phlex_solver.c)\<close>

text \<open>The functions are modelled as compiled with \<open>PMC_USE_SUNDIALS\<close> defined;
  without it \<open>solver_initialize\<close> returns \<open>NULL\<close>, \<open>solver_run\<close> returns
  \<open>PHLEX_SOLVER_FAIL\<close> and the other functions do not exist.\<close>

definition PHLEX_SOLVER_SUCCESS :: int where "PHLEX_SOLVER_SUCCESS = 0"
definition PHLEX_SOLVER_FAIL :: int where "PHLEX_SOLVER_FAIL = 1"

definition CHEM_SPEC_UNKNOWN_TYPE :: int where "CHEM_SPEC_UNKNOWN_TYPE = 0"
definition CHEM_SPEC_VARIABLE :: int where "CHEM_SPEC_VARIABLE = 1"
definition CHEM_SPEC_CONSTANT :: int where "CHEM_SPEC_CONSTANT = 2"
definition CHEM_SPEC_PSSA :: int where "CHEM_SPEC_PSSA = 3"

definition EXIT_FAILURE :: int where "EXIT_FAILURE = 1"

text \<open>
  The data types come from \<open>phlex_solver.h\<close> and the SUNDIALS headers, which are
  not among the sources; the records hold the fields the functions use.  A
  serial \<open>N_Vector\<close> is the list of its entries.  A sparse \<open>SUNMatrix\<close> has the
  fields read by the \<open>SM_..._S\<close> macros.  \<open>md_state\<close> and \<open>md_env\<close> are the
  caller's arrays that \<open>ModelData\<close> points to: a write through \<open>md->state\<close> is a
  write to the caller's state array.
\<close>

record SUNMatrix =
  SM_ROWS :: int
  SM_COLUMNS :: int
  SM_NNZ :: int
  SM_NP :: int
  SM_DATA :: "real list"
  SM_INDEXVALS :: "int list"
  SM_INDEXPTRS :: "int list"

record ModelData =
  md_n_state_var :: int
  md_var_type :: "int list"
  md_rxn_data :: buffer
  md_nxt_rxn :: int
  md_state :: "real list"
  md_env :: "real list"
  md_J_init :: SUNMatrix

record SolverData =
  sd_y :: "real list"
  sd_cvode_mem :: "64 word"
  sd_model_data :: ModelData

text \<open>Modelled from the spec: \<open>rxn_calc_deriv\<close> and \<open>rxn_calc_jac\<close> of the dispatch
  layer (not among the sources) walk the records with the state array of the
  model data and accumulate into the derivative vector, respectively into the
  data array of the sparse matrix.\<close>

definition rxn_calc_deriv :: "ModelData \<Rightarrow> real list \<Rightarrow> real list option" where
  "rxn_calc_deriv md deriv = do {
     n_rxn \<leftarrow> int_at (md_rxn_data md) 0;
     walk_calc_deriv (md_state md) (md_rxn_data md) n_rxn 0 1 deriv
   }"

definition rxn_calc_jac :: "ModelData \<Rightarrow> SUNMatrix \<Rightarrow> SUNMatrix option" where
  "rxn_calc_jac md J = do {
     n_rxn \<leftarrow> int_at (md_rxn_data md) 0;
     data \<leftarrow> walk_calc_jac (md_state md) (md_rxn_data md) n_rxn 0 1 (SM_DATA J);
     Some (J\<lparr>SM_DATA := data\<rparr>)
   }"

subsection \<open>check_flag and check_flag_fail\<close>

text \<open>
  A \<open>void *\<close> argument is an address together with the \<open>int\<close> found there when it
  is read through \<open>int *\<close>.  Addresses are unsigned machine words and \<open>NULL\<close> is
  address 0.  The source compares \<open>err_flag\<close>, the pointer, with 0; the pointed-to
  value is read only for the message.
\<close>

record voidptr =
  addr :: "64 word"
  deref_int :: int

datatype diag = NullPointerMsg string | FlagMsg string int

definition check_flag :: "voidptr \<Rightarrow> string \<Rightarrow> int \<Rightarrow> int \<times> diag list" where
  "check_flag flag_value func_name opt =
     (if opt = 0 \<and> addr flag_value = 0 then
        (PHLEX_SOLVER_FAIL, [NullPointerMsg func_name])
      else if opt = 1 then
        (let err_flag = flag_value in
         if addr err_flag < 0 then
           (PHLEX_SOLVER_FAIL, [FlagMsg func_name (deref_int err_flag)])
         else (PHLEX_SOLVER_SUCCESS, []))
      else (PHLEX_SOLVER_SUCCESS, []))"

datatype 'a outcome = Exited int | Returned 'a

definition check_flag_fail :: "voidptr \<Rightarrow> string \<Rightarrow> int \<Rightarrow> unit outcome \<times> diag list" where
  "check_flag_fail flag_value func_name opt =
     (let (r, out) = check_flag flag_value func_name opt
      in if r = PHLEX_SOLVER_FAIL then (Exited EXIT_FAILURE, out) else (Returned (), out))"

subsection \<open>Copies between the state array and the solver vector\<close>

text \<open>The loop that opens and the loop that closes \<open>solver_run\<close>:
  \<open>if (var_type[i_spec] == CHEM_SPEC_VARIABLE) NV_Ith_S(sd->y, i_dep_var++) = state[i_spec];\<close>\<close>

function state_to_y_loop ::
  "int \<Rightarrow> int list \<Rightarrow> real list \<Rightarrow> int \<Rightarrow> int \<Rightarrow> real list \<Rightarrow> real list option" where
  "state_to_y_loop n_state_var var_type state i_spec i_dep_var y =
     (if i_spec < n_state_var then do {
        t \<leftarrow> arr_get var_type i_spec;
        if t = CHEM_SPEC_VARIABLE then do {
          v \<leftarrow> arr_get state i_spec;
          y' \<leftarrow> arr_set y i_dep_var v;
          state_to_y_loop n_state_var var_type state (i_spec + 1) (i_dep_var + 1) y'
        } else state_to_y_loop n_state_var var_type state (i_spec + 1) i_dep_var y
      } else Some y)"
  by pat_completeness auto
termination
  by (relation "measure (\<lambda>(n, var_type, state, i_spec, i_dep_var, y). nat (n - i_spec))") auto

text \<open>The loop that opens \<open>f\<close> and \<open>Jac\<close>:
  \<open>if (md->var_type[i_spec] == CHEM_SPEC_VARIABLE) md->state[i_spec] = NV_DATA_S(y)[i_dep_var++];\<close>\<close>

function y_to_state_loop ::
  "int \<Rightarrow> int list \<Rightarrow> real list \<Rightarrow> int \<Rightarrow> int \<Rightarrow> real list \<Rightarrow> real list option" where
  "y_to_state_loop n_state_var var_type y i_spec i_dep_var state =
     (if i_spec < n_state_var then do {
        t \<leftarrow> arr_get var_type i_spec;
        if t = CHEM_SPEC_VARIABLE then do {
          v \<leftarrow> arr_get y i_dep_var;
          state' \<leftarrow> arr_set state i_spec v;
          y_to_state_loop n_state_var var_type y (i_spec + 1) (i_dep_var + 1) state'
        } else y_to_state_loop n_state_var var_type y (i_spec + 1) i_dep_var state
      } else Some state)"
  by pat_completeness auto
termination
  by (relation "measure (\<lambda>(n, var_type, y, i_spec, i_dep_var, state). nat (n - i_spec))") auto

subsection \<open>The callbacks f and Jac\<close>

definition f :: "real \<Rightarrow> real list \<Rightarrow> real list \<Rightarrow> ModelData \<Rightarrow> (int \<times> real list \<times> ModelData) option" where
  "f t y deriv md = do {
     state' \<leftarrow> y_to_state_loop (md_n_state_var md) (md_var_type md) y 0 0 (md_state md);
     let md' = md\<lparr>md_state := state'\<rparr>;
     \<comment> \<open>the loop over \<open>NV_LENGTH_S(deriv)\<close> that stores \<open>ZERO\<close> in every entry\<close>
     let deriv0 = map (\<lambda>_. 0) deriv;
     deriv' \<leftarrow> rxn_calc_deriv md' deriv0;
     Some (0, deriv', md')
   }"

text \<open>\<open>realloc\<close> keeps the old contents up to the smaller of the two sizes; the
  cells it adds are indeterminate and are written as 0 and overwritten by the
  loop that follows.\<close>

definition realloc :: "'a list \<Rightarrow> int \<Rightarrow> 'a \<Rightarrow> 'a list" where
  "realloc xs n pad = take (nat n) xs @ replicate (nat n - length xs) pad"

function jac_reset_loop :: "SUNMatrix \<Rightarrow> int \<Rightarrow> SUNMatrix \<Rightarrow> SUNMatrix option" where
  "jac_reset_loop J_init i J =
     (if i < SM_NNZ J then do {
        data \<leftarrow> arr_set (SM_DATA J) i 0;
        v \<leftarrow> arr_get (SM_INDEXVALS J_init) i;
        vals \<leftarrow> arr_set (SM_INDEXVALS J) i v;
        jac_reset_loop J_init (i + 1) (J\<lparr>SM_DATA := data, SM_INDEXVALS := vals\<rparr>)
      } else Some J)"
  by pat_completeness auto
termination
  by (relation "measure (\<lambda>(J_init, i, J). nat (SM_NNZ J - i))") auto

function jac_ptrs_loop :: "SUNMatrix \<Rightarrow> int \<Rightarrow> SUNMatrix \<Rightarrow> SUNMatrix option" where
  "jac_ptrs_loop J_init i J =
     (if i \<le> SM_NP J then do {
        v \<leftarrow> arr_get (SM_INDEXPTRS J_init) i;
        ptrs \<leftarrow> arr_set (SM_INDEXPTRS J) i v;
        jac_ptrs_loop J_init (i + 1) (J\<lparr>SM_INDEXPTRS := ptrs\<rparr>)
      } else Some J)"
  by pat_completeness auto
termination
  by (relation "measure (\<lambda>(J_init, i, J). nat (SM_NP J + 1 - i))") auto

definition Jac ::
  "real \<Rightarrow> real list \<Rightarrow> real list \<Rightarrow> SUNMatrix \<Rightarrow> ModelData \<Rightarrow> (int \<times> SUNMatrix \<times> ModelData) option" where
  "Jac t y deriv J md = do {
     state' \<leftarrow> y_to_state_loop (md_n_state_var md) (md_var_type md) y 0 0 (md_state md);
     let md' = md\<lparr>md_state := state'\<rparr>;
     let J_init = md_J_init md';
     let J1 = (if SM_NNZ J < SM_NNZ J_init
               then J\<lparr>SM_INDEXVALS := realloc (SM_INDEXVALS J) (SM_NNZ J_init) 0,
                      SM_DATA := realloc (SM_DATA J) (SM_NNZ J_init) 0\<rparr>
               else J);
     let J2 = J1\<lparr>SM_NNZ := SM_NNZ J_init\<rparr>;
     J3 \<leftarrow> jac_reset_loop J_init 0 J2;
     J4 \<leftarrow> jac_ptrs_loop J_init 0 J3;
     J5 \<leftarrow> rxn_calc_jac md' J4;
     Some (0, J5, md')
   }"

subsection \<open>get_jac_init\<close>

text \<open>
  \<open>SUNSparseMatrix\<close> and \<open>N_VNew_Serial\<close> are SUNDIALS constructors, written after
  the library's documented behaviour: the sparse constructor refuses a dimension
  that is not positive and a negative \<open>NNZ\<close> (it returns \<open>NULL\<close>, which
  \<open>get_jac_init\<close> then dereferences), and otherwise allocates \<open>NNZ\<close> data cells,
  \<open>NNZ\<close> index values and \<open>N + 1\<close> column pointers, all zero.  The contents of a
  new serial vector are indeterminate and written as 0.
\<close>

definition SUNSparseMatrix :: "int \<Rightarrow> int \<Rightarrow> int \<Rightarrow> SUNMatrix option" where
  "SUNSparseMatrix M N NNZ =
     (if M \<le> 0 \<or> N \<le> 0 \<or> NNZ < 0 then None
      else Some \<lparr>SM_ROWS = M, SM_COLUMNS = N, SM_NNZ = NNZ, SM_NP = N,
                 SM_DATA = replicate (nat NNZ) 0,
                 SM_INDEXVALS = replicate (nat NNZ) 0,
                 SM_INDEXPTRS = replicate (nat (N + 1)) 0\<rparr>)"

definition N_VNew_Serial :: "int \<Rightarrow> real list" where
  "N_VNew_Serial n = replicate (nat n) 0"

text \<open>The counting loops of \<open>get_jac_init\<close>.  Their counter \<open>n_jac_elem\<close> is declared
  in the \<open>for\<close> statement itself (\<open>for (int i=0, n_jac_elem = 0; ...)\<close>), so it is a
  variable of the loop and not the \<open>n_jac_elem\<close> of the function.\<close>

function jac_count_row :: "bool list list \<Rightarrow> int \<Rightarrow> int \<Rightarrow> int \<Rightarrow> int \<Rightarrow> int option" where
  "jac_count_row jac_struct n_dep_var i j n_jac_elem =
     (if j < n_dep_var then do {
        row \<leftarrow> arr_get jac_struct i;
        flag \<leftarrow> arr_get row j;
        jac_count_row jac_struct n_dep_var i (j + 1) (if flag then n_jac_elem + 1 else n_jac_elem)
      } else Some n_jac_elem)"
  by pat_completeness auto
termination
  by (relation "measure (\<lambda>(js, n, i, j, c). nat (n - j))") auto

function jac_count :: "bool list list \<Rightarrow> int \<Rightarrow> int \<Rightarrow> int \<Rightarrow> int option" where
  "jac_count jac_struct n_dep_var i n_jac_elem =
     (if i < n_dep_var then do {
        c \<leftarrow> jac_count_row jac_struct n_dep_var i 0 n_jac_elem;
        jac_count jac_struct n_dep_var (i + 1) c
      } else Some n_jac_elem)"
  by pat_completeness auto
termination
  by (relation "measure (\<lambda>(js, n, i, c). nat (n - i))") auto

text \<open>The loops that set the column pointers and the row indices; the flag that
  is tested is \<open>jac_struct[i_col][i_row]\<close>.\<close>

function jac_fill_rows ::
  "bool list list \<Rightarrow> int \<Rightarrow> int \<Rightarrow> int \<Rightarrow> int \<Rightarrow> SUNMatrix \<Rightarrow> (SUNMatrix \<times> int) option" where
  "jac_fill_rows jac_struct n_dep_var i_col i_row i_elem M =
     (if i_row < n_dep_var then do {
        row \<leftarrow> arr_get jac_struct i_col;
        flag \<leftarrow> arr_get row i_row;
        if flag then do {
          data \<leftarrow> arr_set (SM_DATA M) i_elem 1;
          vals \<leftarrow> arr_set (SM_INDEXVALS M) i_elem i_row;
          jac_fill_rows jac_struct n_dep_var i_col (i_row + 1) (i_elem + 1)
            (M\<lparr>SM_DATA := data, SM_INDEXVALS := vals\<rparr>)
        } else jac_fill_rows jac_struct n_dep_var i_col (i_row + 1) i_elem M
      } else Some (M, i_elem))"
  by pat_completeness auto
termination
  by (relation "measure (\<lambda>(js, n, i_col, i_row, i_elem, M). nat (n - i_row))") auto

function jac_fill_cols ::
  "bool list list \<Rightarrow> int \<Rightarrow> int \<Rightarrow> int \<Rightarrow> SUNMatrix \<Rightarrow> (SUNMatrix \<times> int \<times> int) option" where
  "jac_fill_cols jac_struct n_dep_var i_col i_elem M =
     (if i_col < n_dep_var then do {
        ptrs \<leftarrow> arr_set (SM_INDEXPTRS M) i_col i_elem;
        (M', i_elem') \<leftarrow> jac_fill_rows jac_struct n_dep_var i_col 0 i_elem (M\<lparr>SM_INDEXPTRS := ptrs\<rparr>);
        jac_fill_cols jac_struct n_dep_var (i_col + 1) i_elem' M'
      } else Some (M, i_col, i_elem))"
  by pat_completeness auto
termination
  by (relation "measure (\<lambda>(js, n, i_col, i_elem, M). nat (n - i_col))") auto

text \<open>\<open>n_jac_elem_uninit\<close> is the value that the function's own \<open>n_jac_elem\<close>, which
  is never assigned, happens to hold when \<open>SUNSparseMatrix\<close> is called.\<close>

definition get_jac_init :: "int \<Rightarrow> int \<Rightarrow> buffer \<Rightarrow> SUNMatrix option" where
  "get_jac_init n_jac_elem_uninit n_dep_var rxn_data = do {
     let jac_struct0 = replicate (nat n_dep_var) (replicate (nat n_dep_var) False);
     jac_struct \<leftarrow> rxn_get_used_jac_elem rxn_data jac_struct0;
     loop_n_jac_elem \<leftarrow> jac_count jac_struct n_dep_var 0 0;
     let n_jac_elem = n_jac_elem_uninit;
     M \<leftarrow> SUNSparseMatrix n_dep_var n_dep_var n_jac_elem;
     (M', i_col, i_elem) \<leftarrow> jac_fill_cols jac_struct n_dep_var 0 0 M;
     ptrs \<leftarrow> arr_set (SM_INDEXPTRS M') i_col i_elem;
     Some (M'\<lparr>SM_INDEXPTRS := ptrs\<rparr>)
   }"

subsection \<open>solver_initialize\<close>

text \<open>The loop that counts the solver variables is
  \<open>for (int i; i<n_state_var; i++) if (var_type[i]==CHEM_SPEC_VARIABLE) (n_dep_var)++;\<close>
  Its counter has no initial value; the model takes the value it starts with as
  an argument.\<close>

function n_dep_var_loop :: "int \<Rightarrow> int list \<Rightarrow> int \<Rightarrow> int \<Rightarrow> int option" where
  "n_dep_var_loop n_state_var var_type i n_dep_var =
     (if i < n_state_var then do {
        t \<leftarrow> arr_get var_type i;
        n_dep_var_loop n_state_var var_type (i + 1)
          (if t = CHEM_SPEC_VARIABLE then n_dep_var + 1 else n_dep_var)
      } else Some n_dep_var)"
  by pat_completeness auto
termination
  by (relation "measure (\<lambda>(n, var_type, i, c). nat (n - i))") auto

function abstol_loop ::
  "int \<Rightarrow> int list \<Rightarrow> real list \<Rightarrow> int \<Rightarrow> int \<Rightarrow> real list \<Rightarrow> real list option" where
  "abstol_loop n_state_var var_type abstol i i_dep_var abstol_nv =
     (if i < n_state_var then do {
        t \<leftarrow> arr_get var_type i;
        if t = CHEM_SPEC_VARIABLE then do {
          v \<leftarrow> arr_get abstol i;
          nv \<leftarrow> arr_set abstol_nv i_dep_var v;
          abstol_loop n_state_var var_type abstol (i + 1) (i_dep_var + 1) nv
        } else abstol_loop n_state_var var_type abstol (i + 1) i_dep_var abstol_nv
      } else Some abstol_nv)"
  by pat_completeness auto
termination
  by (relation "measure (\<lambda>(n, var_type, abstol, i, i_dep_var, nv). nat (n - i))") auto

text \<open>
  What the SUNDIALS calls of \<open>solver_initialize\<close> return is not decided by this
  repository; the model takes the results as a record.  \<open>uninit_i\<close> and
  \<open>uninit_n_jac_elem\<close> are the values of the two variables that are read before
  they are assigned, \<open>flag_addr\<close> is the address of the local \<open>flag\<close>, and
  \<open>rxn_mem\<close> is the block that \<open>malloc\<close> returns for the reaction data.  The
  pointers \<open>state\<close> and \<open>env\<close> of the model data are not set by
  \<open>solver_initialize\<close>; the model data returned holds empty arrays for them.
  The text written to the diagnostic stream is not threaded through the callers.
\<close>

record init_env =
  r_CVodeCreate :: "64 word"
  r_CVodeSetUserData :: int
  r_CVodeInit :: int
  r_CVodeSVtolerances :: int
  r_CVodeSetMaxNumSteps :: int
  r_CVodeSetMaxConvFails :: int
  r_SUNKLU :: "64 word"
  r_CVDlsSetLinearSolver :: int
  r_CVDlsSetJacFn :: int
  uninit_i :: int
  uninit_n_jac_elem :: int
  flag_addr :: "64 word"
  rxn_mem :: buffer

record init_result =
  ir_sd :: SolverData
  ir_n_dep_var :: int
  ir_abstol_nv :: "real list"
  ir_J :: SUNMatrix

definition seq_check :: "unit outcome \<times> diag list \<Rightarrow> 'a outcome option \<Rightarrow> 'a outcome option" where
  "seq_check c k = (case fst c of Exited code \<Rightarrow> Some (Exited code) | Returned _ \<Rightarrow> k)"

definition int_flag :: "init_env \<Rightarrow> int \<Rightarrow> voidptr" where
  "int_flag ext v = \<lparr>addr = flag_addr ext, deref_int = v\<rparr>"

definition solver_initialize ::
  "init_env \<Rightarrow> int \<Rightarrow> int list \<Rightarrow> real list \<Rightarrow> real \<Rightarrow> int \<Rightarrow> int \<Rightarrow> int \<Rightarrow> int \<Rightarrow> int
     \<Rightarrow> init_result outcome option" where
  "solver_initialize ext n_state_var var_type abstol reltol max_steps max_conv_fails
       n_rxn n_int_param n_float_param = do {
     n_dep_var \<leftarrow> n_dep_var_loop n_state_var var_type (uninit_i ext) 0;
     let y = N_VNew_Serial n_dep_var;
     rxn_data \<leftarrow> arr_set (rxn_mem ext) 0 (IntCell n_rxn);
     seq_check (check_flag_fail \<lparr>addr = r_CVodeCreate ext, deref_int = 0\<rparr> ''CVodeCreate'' 0) (
     seq_check (check_flag_fail (int_flag ext (r_CVodeSetUserData ext)) ''CVodeSetUserData'' 1) (
     seq_check (check_flag_fail (int_flag ext (r_CVodeInit ext)) ''CVodeInit'' 1) (do {
     abstol_nv \<leftarrow> abstol_loop n_state_var var_type abstol 0 0 (N_VNew_Serial n_dep_var);
     seq_check (check_flag_fail (int_flag ext (r_CVodeSVtolerances ext)) ''CVodeSVtolerances'' 1) (
     seq_check (check_flag_fail (int_flag ext (r_CVodeSetMaxNumSteps ext)) ''CVodeSetMaxNumSteps'' 1) (
     seq_check (check_flag_fail (int_flag ext (r_CVodeSetMaxConvFails ext)) ''CVodeSetMaxConvFails'' 1) (do {
     J \<leftarrow> get_jac_init (uninit_n_jac_elem ext) n_dep_var rxn_data;
     seq_check (check_flag_fail \<lparr>addr = r_SUNKLU ext, deref_int = 0\<rparr> ''SUNKLU'' 0) (
     seq_check (check_flag_fail (int_flag ext (r_CVDlsSetLinearSolver ext)) ''CVDlsSetLinearSolver'' 1) (
     seq_check (check_flag_fail (int_flag ext (r_CVDlsSetJacFn ext)) ''CVDlsSetJacFn'' 1) (
     Some (Returned
       \<lparr>ir_sd = \<lparr>sd_y = y, sd_cvode_mem = r_CVodeCreate ext,
                  sd_model_data = \<lparr>md_n_state_var = n_state_var, md_var_type = var_type,
                     md_rxn_data = rxn_data, md_nxt_rxn = 1, md_state = [], md_env = [],
                     md_J_init = J\<rparr>\<rparr>,
         ir_n_dep_var = n_dep_var, ir_abstol_nv = abstol_nv, ir_J = J\<rparr>))))
     }))) })))
   }"

subsection \<open>solver_run\<close>

text \<open>\<open>CVodeReInit\<close> and \<open>CVode\<close> are SUNDIALS: the flag of the first and the whole
  effect of the second (its flag, the solver vector and whatever its callbacks
  did to the model data, the state array included) are arguments of the model.\<close>

definition solver_run ::
  "int \<Rightarrow> (SolverData \<Rightarrow> real \<Rightarrow> real \<Rightarrow> int \<times> SolverData) \<Rightarrow> 64 word
     \<Rightarrow> SolverData \<Rightarrow> real list \<Rightarrow> real list \<Rightarrow> real \<Rightarrow> real
     \<Rightarrow> (int \<times> SolverData) outcome option" where
  "solver_run r_CVodeReInit CVode flag_adr sd state env t_initial t_final = do {
     let md = sd_model_data sd;
     y1 \<leftarrow> state_to_y_loop (md_n_state_var md) (md_var_type md) state 0 0 (sd_y sd);
     let md1 = md\<lparr>md_state := state, md_env := env\<rparr>;
     rxn_data \<leftarrow> rxn_update_env_state env (md_rxn_data md1);
     let sd1 = sd\<lparr>sd_y := y1, sd_model_data := md1\<lparr>md_rxn_data := rxn_data\<rparr>\<rparr>;
     seq_check (check_flag_fail \<lparr>addr = flag_adr, deref_int = r_CVodeReInit\<rparr> ''CVodeReInit'' 1) (do {
       let (flag, sd2) = CVode sd1 t_final t_initial;
       if fst (check_flag \<lparr>addr = flag_adr, deref_int = flag\<rparr> ''CVode'' 1) = PHLEX_SOLVER_FAIL
       then Some (Returned (PHLEX_SOLVER_FAIL, sd2))
       else do {
         let md2 = sd_model_data sd2;
         y3 \<leftarrow> state_to_y_loop (md_n_state_var md2) (md_var_type md2) (md_state md2) 0 0 (sd_y sd2);
         Some (Returned (PHLEX_SOLVER_SUCCESS, sd2\<lparr>sd_y := y3\<rparr>))
       }
     })
   }"

section \<open>The record layout and buffer traversal\<close>

text \<open>
  The layout that the accessor macros address: two counts, the reactant ids, the
  product ids, one derivative id per reactant and product, one Jacobian id per
  pair of a reactant or product with a reactant, then the seven real parameters
  (\<open>A\<close>, \<open>B\<close>, \<open>C\<close>, \<open>D\<close>, \<open>E\<close>, \<open>CONV\<close>, the rate constant) and one yield per
  product.  \<open>encode_rxn\<close> writes a record in this layout; it is used to state
  that the sizes by which the functions advance agree with it, and to build
  concrete buffers.
\<close>

record arrhenius_rxn =
  rx_react :: "int list"
  rx_prod :: "int list"
  rx_deriv_id :: "int list"
  rx_jac_id :: "int list"
  rx_float :: "real list"
  rx_yield :: "real list"

definition rxn_wf :: "arrhenius_rxn \<Rightarrow> bool" where
  "rxn_wf r \<longleftrightarrow>
     length (rx_deriv_id r) = length (rx_react r) + length (rx_prod r) \<and>
     length (rx_jac_id r) = length (rx_react r) * (length (rx_react r) + length (rx_prod r)) \<and>
     length (rx_float r) = 7 \<and>
     length (rx_yield r) = length (rx_prod r)"

definition encode_rxn :: "arrhenius_rxn \<Rightarrow> buffer" where
  "encode_rxn r =
     IntCell (int (length (rx_react r))) # IntCell (int (length (rx_prod r))) #
     map IntCell (rx_react r @ rx_prod r @ rx_deriv_id r @ rx_jac_id r) @
     map RealCell (rx_float r @ rx_yield r)"

text \<open>\<open>n\<close> applications of the advance operation, each from where the last one
  arrived.\<close>

fun skip_n :: "buffer \<Rightarrow> nat \<Rightarrow> int \<Rightarrow> int option" where
  "skip_n buf 0 p = Some p"
| "skip_n buf (Suc n) p = do { q \<leftarrow> rxn_arrhenius_skip buf p; skip_n buf n q }"

section \<open>Concrete mechanisms\<close>

text \<open>A first-order reaction \<open>A \<rightarrow> B\<close> with rate constant 1, species \<open>A\<close> at state
  index 0 and \<open>B\<close> at index 1, and a buffer that holds the count 2 and this record
  twice.\<close>

definition rxnAB :: arrhenius_rxn where
  "rxnAB = \<lparr>rx_react = [0], rx_prod = [1], rx_deriv_id = [0, 1], rx_jac_id = [0, 1],
            rx_float = [1, 0, 0, 1, 0, 1, 1], rx_yield = [1]\<rparr>"

definition bufAB2 :: buffer where
  "bufAB2 = IntCell 2 # encode_rxn rxnAB @ encode_rxn rxnAB"

text \<open>The position of state entry \<open>i\<close> among the solver variables: the number of
  \<open>CHEM_SPEC_VARIABLE\<close> entries of \<open>var_type\<close> before index \<open>i\<close>.\<close>

definition dep_index :: "int list \<Rightarrow> nat \<Rightarrow> nat" where
  "dep_index var_type i = length (filter (\<lambda>t. t = CHEM_SPEC_VARIABLE) (take i var_type))"

text \<open>A solver instance over three species, the second one constant, with the
  single reaction \<open>A \<rightarrow> C\<close> between the first and the third; a stand-in for
  \<open>CVode\<close> that returns a given flag and a given solver vector and leaves the
  model data alone; and the outcomes of the SUNDIALS calls of an initialization in
  which every call succeeds.\<close>

definition rxnAC :: arrhenius_rxn where
  "rxnAC = \<lparr>rx_react = [0], rx_prod = [2], rx_deriv_id = [0, 1], rx_jac_id = [0, 1],
            rx_float = [1, 0, 0, 1, 0, 1, 1], rx_yield = [1]\<rparr>"

definition J0 :: SUNMatrix where
  "J0 = \<lparr>SM_ROWS = 2, SM_COLUMNS = 2, SM_NNZ = 2, SM_NP = 2, SM_DATA = [1, 1],
          SM_INDEXVALS = [0, 1], SM_INDEXPTRS = [0, 2, 2]\<rparr>"

definition md0 :: ModelData where
  "md0 = \<lparr>md_n_state_var = 3,
           md_var_type = [CHEM_SPEC_VARIABLE, CHEM_SPEC_CONSTANT, CHEM_SPEC_VARIABLE],
           md_rxn_data = IntCell 1 # encode_rxn rxnAC, md_nxt_rxn = 1,
           md_state = [5, 7, 9], md_env = [300, 101325], md_J_init = J0\<rparr>"

definition sd0 :: SolverData where
  "sd0 = \<lparr>sd_y = [0, 0], sd_cvode_mem = 1, sd_model_data = md0\<rparr>"

definition cvode_stub :: "int \<Rightarrow> real list \<Rightarrow> SolverData \<Rightarrow> real \<Rightarrow> real \<Rightarrow> int \<times> SolverData" where
  "cvode_stub flag y_new sd t_final t_initial = (flag, sd\<lparr>sd_y := y_new\<rparr>)"

definition ext_ok :: init_env where
  "ext_ok = \<lparr>r_CVodeCreate = 4096, r_CVodeSetUserData = 0, r_CVodeInit = 0,
              r_CVodeSVtolerances = 0, r_CVodeSetMaxNumSteps = 0, r_CVodeSetMaxConvFails = 0,
              r_SUNKLU = 8192, r_CVDlsSetLinearSolver = 0, r_CVDlsSetJacFn = 0,
              uninit_i = 0, uninit_n_jac_elem = 0, flag_addr = 12288,
              rxn_mem = [IntCell 0]\<rparr>"




definition rxnA_BC :: arrhenius_rxn where
  "rxnA_BC = \<lparr>rx_react = [0], rx_prod = [1, 2], rx_deriv_id = [0, 1, 2], rx_jac_id = [0, 1, 2],
            rx_float = [1, 0, 0, 1, 0, 1, 1], rx_yield = [1, 1]\<rparr>"

definition rxnAB_P :: arrhenius_rxn where
  "rxnAB_P = \<lparr>rx_react = [0, 1], rx_prod = [2], rx_deriv_id = [0, 1, 2],
            rx_jac_id = [0, 1, 2, 3, 4, 5],
            rx_float = [1, 0, 0, 1, 0, 1, 1], rx_yield = [1]\<rparr>"

section \<open>Reading the model on concrete data\<close>

text \<open>The loops are unfolded on demand only.\<close>

lemmas loop_simps =
  rate_loop.simps deriv_loop1.simps deriv_loop2.simps jac_react_inner.simps
  jac_react_outer.simps jac_prod_inner.simps jac_prod_outer.simps used_inner.simps
  used_outer.simps walk_used_jac.simps walk_update_env.simps walk_calc_deriv.simps
  walk_calc_jac.simps state_to_y_loop.simps y_to_state_loop.simps jac_reset_loop.simps
  jac_ptrs_loop.simps jac_count_row.simps jac_count.simps jac_fill_rows.simps
  jac_fill_cols.simps n_dep_var_loop.simps abstol_loop.simps

declare loop_simps [simp del]

lemmas macro_defs =
  NUM_REACT_def NUM_PROD_def int_at_def real_at_def real_store_def INT_DATA_SIZE_def
  FLOAT_DATA_SIZE_def NUM_INT_PROP_def NUM_FLOAT_PROP_def arr_get_def arr_set_def
  RATE_CONSTANT_def REACT_def DERIV_ID_def JAC_ID_def yield_def A_param_def B_param_def
  C_param_def D_param_def E_param_def CONV_def jac_struct_set_def

lemmas const_defs =
  CHEM_SPEC_VARIABLE_def CHEM_SPEC_CONSTANT_def CHEM_SPEC_PSSA_def PHLEX_SOLVER_FAIL_def
  PHLEX_SOLVER_SUCCESS_def EXIT_FAILURE_def

section \<open>The advance of the record pointer\<close>

lemma length_encode_rxn:
  "rxn_wf r \<Longrightarrow> int (length (encode_rxn r)) =
     INT_DATA_SIZE (int (length (rx_react r))) (int (length (rx_prod r)))
       + FLOAT_DATA_SIZE (int (length (rx_prod r)))"
  by (simp add: encode_rxn_def rxn_wf_def INT_DATA_SIZE_def FLOAT_DATA_SIZE_def
      NUM_INT_PROP_def NUM_FLOAT_PROP_def algebra_simps)

lemma skip_encode:
  assumes "rxn_wf r"
  shows "rxn_arrhenius_skip (pre @ encode_rxn r @ post) (int (length pre))
           = Some (int (length pre) + int (length (encode_rxn r)))"
proof -
  have nr: "NUM_REACT (pre @ encode_rxn r @ post) (int (length pre))
              = Some (int (length (rx_react r)))"
    by (simp add: NUM_REACT_def encode_rxn_def int_at_def nth_append)
  have np: "NUM_PROD (pre @ encode_rxn r @ post) (int (length pre))
              = Some (int (length (rx_prod r)))"
    by (simp add: NUM_PROD_def encode_rxn_def int_at_def nth_append nat_add_distrib)
  show ?thesis
    unfolding rxn_arrhenius_skip_def nr np
    using length_encode_rxn[OF assms] by (simp add: Let_def)
qed

lemma skip_n_encode:
  "\<forall>r\<in>set rs. rxn_wf r \<Longrightarrow>
   skip_n (pre @ concat (map encode_rxn rs) @ post) (length rs) (int (length pre))
     = Some (int (length pre) + int (length (concat (map encode_rxn rs))))"
proof (induction rs arbitrary: pre)
  case Nil
  then show ?case by simp
next
  case (Cons r rs)
  have wf: "rxn_wf r" using Cons.prems by simp
  have first: "rxn_arrhenius_skip (pre @ encode_rxn r @ (concat (map encode_rxn rs) @ post))
                 (int (length pre)) = Some (int (length pre) + int (length (encode_rxn r)))"
    by (rule skip_encode[OF wf])
  have rest: "skip_n ((pre @ encode_rxn r) @ concat (map encode_rxn rs) @ post) (length rs)
                (int (length (pre @ encode_rxn r)))
              = Some (int (length (pre @ encode_rxn r)) + int (length (concat (map encode_rxn rs))))"
    using Cons.IH[of "pre @ encode_rxn r"] Cons.prems by simp
  show ?case using first rest by (simp add: algebra_simps)
qed

lemma deriv_contrib_ptr:
  "rxn_arrhenius_calc_deriv_contrib state deriv buf p = Some (d, q)
     \<Longrightarrow> rxn_arrhenius_skip buf p = Some q"
  by (auto simp: rxn_arrhenius_calc_deriv_contrib_def rxn_arrhenius_skip_def Let_def
      split: Option.bind_splits if_splits)

lemma jac_contrib_ptr:
  "rxn_arrhenius_calc_jac_contrib state J buf p = Some (d, q)
     \<Longrightarrow> rxn_arrhenius_skip buf p = Some q"
  by (auto simp: rxn_arrhenius_calc_jac_contrib_def rxn_arrhenius_skip_def Let_def
      split: Option.bind_splits if_splits)

lemma used_jac_elem_ptr:
  "rxn_arrhenius_get_used_jac_elem buf p js = Some (d, q)
     \<Longrightarrow> rxn_arrhenius_skip buf p = Some q"
  by (auto simp: rxn_arrhenius_get_used_jac_elem_def rxn_arrhenius_skip_def Let_def
      split: Option.bind_splits if_splits)

lemma update_env_ptr:
  "rxn_arrhenius_update_env_state env buf p = Some (d, q)
     \<Longrightarrow> rxn_arrhenius_skip buf p = Some q"
  by (auto simp: rxn_arrhenius_update_env_state_def rxn_arrhenius_skip_def Let_def
      split: Option.bind_splits if_splits)

text \<open>
  Claim C7.  Each of the four operations that do work on a record returns, when it
  returns, the pointer that \<open>rxn_arrhenius_skip\<close> returns for the same record; that
  pointer is the record pointer plus \<open>_INT_DATA_SIZE_\<close> plus \<open>_FLOAT_DATA_SIZE_\<close>
  cells; and over a buffer in which \<open>N\<close> well-formed records lie one after the
  other, \<open>N\<close> advances from the first record arrive exactly at the end of the last.
\<close>

theorem arrhenius_advance_identical:
  "(rxn_arrhenius_get_used_jac_elem buf p js = Some (js', q1)
      \<longrightarrow> rxn_arrhenius_skip buf p = Some q1) \<and>
   (rxn_arrhenius_update_env_state env buf p = Some (buf', q2)
      \<longrightarrow> rxn_arrhenius_skip buf p = Some q2) \<and>
   (rxn_arrhenius_calc_deriv_contrib state deriv buf p = Some (deriv', q3)
      \<longrightarrow> rxn_arrhenius_skip buf p = Some q3) \<and>
   (rxn_arrhenius_calc_jac_contrib state J buf p = Some (J', q4)
      \<longrightarrow> rxn_arrhenius_skip buf p = Some q4) \<and>
   (NUM_REACT buf p = Some nr \<and> NUM_PROD buf p = Some np \<longrightarrow>
      rxn_arrhenius_skip buf p = Some (p + INT_DATA_SIZE nr np + FLOAT_DATA_SIZE np)) \<and>
   ((\<forall>r\<in>set rs. rxn_wf r) \<longrightarrow>
      skip_n (pre @ concat (map encode_rxn rs) @ post) (length rs) (int (length pre))
        = Some (int (length pre) + int (length (concat (map encode_rxn rs)))))"
  using used_jac_elem_ptr update_env_ptr deriv_contrib_ptr jac_contrib_ptr skip_n_encode
  by (auto simp: rxn_arrhenius_skip_def Let_def)

theorem arrhenius_advance_identical_witness:
  "rxn_arrhenius_get_used_jac_elem bufAB2 1 [[False, False], [False, False]]
     = Some ([[True, False], [False, False]], 17) \<and>
   rxn_arrhenius_update_env_state [300, 101325] bufAB2 1 = Some (bufAB2, 17) \<and>
   rxn_arrhenius_calc_deriv_contrib [2, 0] [0, 0] bufAB2 1 = Some ([- 2, 2], 17) \<and>
   rxn_arrhenius_calc_jac_contrib [2, 0] [0, 0] bufAB2 1 = Some ([- 1, 1], 17) \<and>
   NUM_REACT bufAB2 1 = Some 1 \<and> NUM_PROD bufAB2 1 = Some 1 \<and>
   rxn_arrhenius_skip bufAB2 1 = Some (1 + INT_DATA_SIZE 1 1 + FLOAT_DATA_SIZE 1) \<and>
   rxn_wf rxnAB \<and>
   skip_n bufAB2 (length [rxnAB, rxnAB]) 1 = Some (int (length bufAB2)) \<and> length bufAB2 = 33"
proof -
  have used: "rxn_arrhenius_get_used_jac_elem bufAB2 1 [[False, False], [False, False]]
                = Some ([[True, False], [False, False]], 17)"
    by (simp add: rxn_arrhenius_get_used_jac_elem_def bufAB2_def encode_rxn_def rxnAB_def macro_defs loop_simps)
  have env: "rxn_arrhenius_update_env_state [300, 101325] bufAB2 1 = Some (bufAB2, 17)"
    by (simp add: rxn_arrhenius_update_env_state_def bufAB2_def encode_rxn_def rxnAB_def
        macro_defs loop_simps SUNRexp_def SUNRpowerI_def SUNRpowerR_def)
  have deriv: "rxn_arrhenius_calc_deriv_contrib [2, 0] [0, 0] bufAB2 1 = Some ([- 2, 2], 17)"
    by (simp add: rxn_arrhenius_calc_deriv_contrib_def bufAB2_def encode_rxn_def rxnAB_def macro_defs loop_simps)
  have jac: "rxn_arrhenius_calc_jac_contrib [2, 0] [0, 0] bufAB2 1 = Some ([- 1, 1], 17)"
    by (simp add: rxn_arrhenius_calc_jac_contrib_def bufAB2_def encode_rxn_def rxnAB_def macro_defs loop_simps)
  have nr: "NUM_REACT bufAB2 1 = Some 1" and np: "NUM_PROD bufAB2 1 = Some 1"
    by (simp_all add: bufAB2_def encode_rxn_def rxnAB_def macro_defs loop_simps)
  have wf: "\<forall>r\<in>set [rxnAB, rxnAB]. rxn_wf r"
    by (simp add: rxn_wf_def rxnAB_def)
  have len: "length bufAB2 = 33"
    by (simp add: bufAB2_def encode_rxn_def rxnAB_def)
  have buf: "bufAB2 = [IntCell 2] @ concat (map encode_rxn [rxnAB, rxnAB]) @ []"
    by (simp add: bufAB2_def)
  note inst = arrhenius_advance_identical[of bufAB2 1 "[[False, False], [False, False]]"
      "[[True, False], [False, False]]" 17 "[300, 101325]" bufAB2 17 "[2, 0]" "[0, 0]"
      "[- 2, 2]" 17 "[0, 0]" "[- 1, 1]" 17 1 1 "[rxnAB, rxnAB]" "[IntCell 2]" "[]"]
  have skip: "rxn_arrhenius_skip bufAB2 1 = Some (1 + INT_DATA_SIZE 1 1 + FLOAT_DATA_SIZE 1)"
    using inst nr np by blast
  have walk0: "skip_n ([IntCell 2] @ concat (map encode_rxn [rxnAB, rxnAB]) @ [])
                 (length [rxnAB, rxnAB]) (int (length [IntCell 2]))
               = Some (int (length [IntCell 2]) + int (length (concat (map encode_rxn [rxnAB, rxnAB]))))"
    using inst wf by blast
  have e: "int (length [IntCell 2]) + int (length (concat (map encode_rxn [rxnAB, rxnAB])))
             = int (length bufAB2)"
    by (simp add: bufAB2_def)
  have walk: "skip_n bufAB2 (length [rxnAB, rxnAB]) 1 = Some (int (length bufAB2))"
    using walk0 unfolding buf[symmetric] e by simp
  have wf1: "rxn_wf rxnAB" using wf by simp
  show ?thesis using used env deriv jac nr np skip wf1 walk len by blast
qed

section \<open>The rate of a record\<close>

lemma int_ivl_split: "i < n \<Longrightarrow> {i..<n} = insert i {i + 1..<n}" for i n :: int
  by auto

lemma prod_int_ivl: "i < n \<Longrightarrow> (\<Prod>j\<in>{i..<n}. g j) = g i * (\<Prod>j\<in>{i + 1..<n}. g j)"
  for i n :: int and g :: "int \<Rightarrow> real"
  by (simp add: int_ivl_split[of i n])

lemma rate_loop_prod:
  "(\<forall>j. i \<le> j \<and> j < nr \<longrightarrow> REACT buf p j = Some (rs j) \<and> arr_get state (rs j) = Some (cs j))
   \<Longrightarrow> rate_loop state buf p nr i rate = Some (rate * (\<Prod>j\<in>{i..<nr}. cs j))"
proof (induction state buf p nr i rate rule: rate_loop.induct)
  case (1 state buf p nr i rate)
  show ?case
  proof (cases "i < nr")
    case True
    have r: "REACT buf p i = Some (rs i)" and c: "arr_get state (rs i) = Some (cs i)"
      using "1.prems" True by auto
    have ih: "rate_loop state buf p nr (i + 1) (rate * cs i)
                = Some (rate * cs i * (\<Prod>j\<in>{i + 1..<nr}. cs j))"
      using "1.IH"[OF True r c] "1.prems" by simp
    show ?thesis
      using True r c ih by (subst rate_loop.simps) (simp add: prod_int_ivl[OF True] mult.assoc)
  next
    case False
    then show ?thesis by (subst rate_loop.simps) simp
  qed
qed




section \<open>The mapping between state entries and solver variables\<close>

lemma dep_index_Suc:
  "i < length vt \<Longrightarrow> dep_index vt (Suc i) = dep_index vt i + (if vt ! i = CHEM_SPEC_VARIABLE then 1 else 0)"
  by (simp add: dep_index_def take_Suc_conv_app_nth)

lemma dep_index_mono: "i \<le> j \<Longrightarrow> dep_index vt i \<le> dep_index vt j"
proof (induction j)
  case 0 then show ?case by simp
next
  case (Suc j)
  show ?case
  proof (cases "i = Suc j")
    case True then show ?thesis by simp
  next
    case False
    then have le: "dep_index vt i \<le> dep_index vt j" using Suc by simp
    show ?thesis
    proof (cases "j < length vt")
      case True
      then show ?thesis using le by (simp add: dep_index_Suc)
    next
      case False
      then show ?thesis using le by (simp add: dep_index_def)
    qed
  qed
qed

lemma state_to_y_loop_spec:
  "state_to_y_loop n vt st i d y = Some y' \<Longrightarrow> 0 \<le> i \<Longrightarrow> 0 \<le> d \<Longrightarrow>
     length y' = length y \<and>
     (\<forall>k. k < nat d \<longrightarrow> y' ! k = y ! k) \<and>
     (\<forall>j. i \<le> j \<and> j < n \<and> vt ! nat j = CHEM_SPEC_VARIABLE \<longrightarrow>
        y' ! (nat d + (dep_index vt (nat j) - dep_index vt (nat i))) = st ! nat j)"
proof (induction n vt st i d y rule: state_to_y_loop.induct)
  case (1 n vt st i d y)
  show ?case
  proof (cases "i < n")
    case False
    then show ?thesis using "1.prems" by (subst (asm) state_to_y_loop.simps) simp
  next
    case True
    have unf: "state_to_y_loop n vt st i d y = do {
        t \<leftarrow> arr_get vt i;
        if t = CHEM_SPEC_VARIABLE then do {
          v \<leftarrow> arr_get st i;
          y' \<leftarrow> arr_set y d v;
          state_to_y_loop n vt st (i + 1) (d + 1) y'
        } else state_to_y_loop n vt st (i + 1) d y }"
      using True by (subst state_to_y_loop.simps) simp
    note p1 = "1.prems"(1)[unfolded unf]
    from p1 obtain t where t: "arr_get vt i = Some t"
      by (auto split: Option.bind_splits)
    then have ilen: "nat i < length vt" and tv: "t = vt ! nat i"
      using "1.prems"(2) by (auto simp: arr_get_def split: if_splits)
    have nat_suc: "nat (i + 1) = Suc (nat i)" using "1.prems"(2) by simp
    have nd: "nat (d + 1) = Suc (nat d)" using "1.prems"(3) by simp
    show ?thesis
    proof (cases "t = CHEM_SPEC_VARIABLE")
      case var: True
      from p1 t var obtain v y1 where
        v: "arr_get st i = Some v" and y1: "arr_set y d v = Some y1"
        and rec: "state_to_y_loop n vt st (i + 1) (d + 1) y1 = Some y'"
        by (auto split: Option.bind_splits)
      have vval: "v = st ! nat i" using v by (auto simp: arr_get_def split: if_splits)
      have y1val: "y1 = y[nat d := v]" and dlen: "nat d < length y"
        using y1 "1.prems"(3) by (auto simp: arr_set_def split: if_splits)
      have ih: "length y' = length y1 \<and>
         (\<forall>k. k < nat (d + 1) \<longrightarrow> y' ! k = y1 ! k) \<and>
         (\<forall>j. i + 1 \<le> j \<and> j < n \<and> vt ! nat j = CHEM_SPEC_VARIABLE \<longrightarrow>
            y' ! (nat (d + 1) + (dep_index vt (nat j) - dep_index vt (nat (i + 1)))) = st ! nat j)"
        using "1.IH"(1)[OF True t var v y1 rec] "1.prems"(2,3) by simp
      have di: "dep_index vt (Suc (nat i)) = dep_index vt (nat i) + 1"
        using dep_index_Suc[OF ilen] var tv by simp
      have a: "length y' = length y" using ih y1val by simp
      have b: "\<forall>k. k < nat d \<longrightarrow> y' ! k = y ! k"
      proof (intro allI impI)
        fix k assume k: "k < nat d"
        then have "k < nat (d + 1)" using "1.prems"(3) by simp
        then have "y' ! k = y1 ! k" using ih by blast
        also have "\<dots> = y ! k" using k y1val by simp
        finally show "y' ! k = y ! k" .
      qed
      have c: "\<forall>j. i \<le> j \<and> j < n \<and> vt ! nat j = CHEM_SPEC_VARIABLE \<longrightarrow>
          y' ! (nat d + (dep_index vt (nat j) - dep_index vt (nat i))) = st ! nat j"
      proof (intro allI impI)
        fix j assume j: "i \<le> j \<and> j < n \<and> vt ! nat j = CHEM_SPEC_VARIABLE"
        show "y' ! (nat d + (dep_index vt (nat j) - dep_index vt (nat i))) = st ! nat j"
        proof (cases "j = i")
          case True
          have "y' ! nat d = y1 ! nat d" using ih "1.prems"(3) by simp
          then show ?thesis using True y1val dlen vval by simp
        next
          case False
          then have j1: "i + 1 \<le> j" using j by simp
          then have "Suc (nat i) \<le> nat j" using "1.prems"(2) by simp
          then have "dep_index vt (Suc (nat i)) \<le> dep_index vt (nat j)" by (rule dep_index_mono)
          then have e: "nat (d + 1) + (dep_index vt (nat j) - dep_index vt (nat (i + 1)))
                   = nat d + (dep_index vt (nat j) - dep_index vt (nat i))"
            using di nat_suc nd by arith
          show ?thesis using ih j j1 e by metis
        qed
      qed
      show ?thesis using a b c by blast
    next
      case nvar: False
      from p1 t nvar have
        rec: "state_to_y_loop n vt st (i + 1) d y = Some y'"
        by (auto split: Option.bind_splits)
      have ih: "length y' = length y \<and>
         (\<forall>k. k < nat d \<longrightarrow> y' ! k = y ! k) \<and>
         (\<forall>j. i + 1 \<le> j \<and> j < n \<and> vt ! nat j = CHEM_SPEC_VARIABLE \<longrightarrow>
            y' ! (nat d + (dep_index vt (nat j) - dep_index vt (nat (i + 1)))) = st ! nat j)"
        using "1.IH"(2)[OF True t nvar rec] "1.prems"(2,3) by simp
      have di: "dep_index vt (Suc (nat i)) = dep_index vt (nat i)"
        using dep_index_Suc[OF ilen] nvar tv by simp
      have c: "\<forall>j. i \<le> j \<and> j < n \<and> vt ! nat j = CHEM_SPEC_VARIABLE \<longrightarrow>
          y' ! (nat d + (dep_index vt (nat j) - dep_index vt (nat i))) = st ! nat j"
      proof (intro allI impI)
        fix j assume j: "i \<le> j \<and> j < n \<and> vt ! nat j = CHEM_SPEC_VARIABLE"
        then have "j \<noteq> i" using nvar tv by auto
        then have j1: "i + 1 \<le> j" using j by simp
        show "y' ! (nat d + (dep_index vt (nat j) - dep_index vt (nat i))) = st ! nat j"
          using ih j j1 di nat_suc by metis
      qed
      show ?thesis using ih c by blast
    qed
  qed
qed


lemma y_to_state_loop_spec:
  "y_to_state_loop n vt y i d st = Some st' \<Longrightarrow> 0 \<le> i \<Longrightarrow> 0 \<le> d \<Longrightarrow>
     length st' = length st \<and>
     (\<forall>j. i \<le> j \<and> j < n \<and> vt ! nat j = CHEM_SPEC_VARIABLE \<longrightarrow>
        st' ! nat j = y ! (nat d + (dep_index vt (nat j) - dep_index vt (nat i)))) \<and>
     (\<forall>k. k < length st \<and> \<not> (nat i \<le> k \<and> int k < n \<and> vt ! k = CHEM_SPEC_VARIABLE)
        \<longrightarrow> st' ! k = st ! k)"
proof (induction n vt y i d st rule: y_to_state_loop.induct)
  case (1 n vt y i d st)
  show ?case
  proof (cases "i < n")
    case False
    then show ?thesis using "1.prems" by (subst (asm) y_to_state_loop.simps) simp
  next
    case True
    have unf: "y_to_state_loop n vt y i d st = do {
        t \<leftarrow> arr_get vt i;
        if t = CHEM_SPEC_VARIABLE then do {
          v \<leftarrow> arr_get y d;
          state' \<leftarrow> arr_set st i v;
          y_to_state_loop n vt y (i + 1) (d + 1) state'
        } else y_to_state_loop n vt y (i + 1) d st }"
      using True by (subst y_to_state_loop.simps) simp
    note p1 = "1.prems"(1)[unfolded unf]
    from p1 obtain t where t: "arr_get vt i = Some t"
      by (auto split: Option.bind_splits)
    then have ilen: "nat i < length vt" and tv: "t = vt ! nat i"
      using "1.prems"(2) by (auto simp: arr_get_def split: if_splits)
    have nat_suc: "nat (i + 1) = Suc (nat i)" using "1.prems"(2) by simp
    have nd: "nat (d + 1) = Suc (nat d)" using "1.prems"(3) by simp
    show ?thesis
    proof (cases "t = CHEM_SPEC_VARIABLE")
      case var: True
      from p1 t var obtain v st1 where
        v: "arr_get y d = Some v" and st1: "arr_set st i v = Some st1"
        and rec: "y_to_state_loop n vt y (i + 1) (d + 1) st1 = Some st'"
        by (auto split: Option.bind_splits)
      have vval: "v = y ! nat d" using v by (auto simp: arr_get_def split: if_splits)
      have st1val: "st1 = st[nat i := v]" and islen: "nat i < length st"
        using st1 "1.prems"(2) by (auto simp: arr_set_def split: if_splits)
      have ih: "length st' = length st1 \<and>
         (\<forall>j. i + 1 \<le> j \<and> j < n \<and> vt ! nat j = CHEM_SPEC_VARIABLE \<longrightarrow>
            st' ! nat j = y ! (nat (d + 1) + (dep_index vt (nat j) - dep_index vt (nat (i + 1))))) \<and>
         (\<forall>k. k < length st1 \<and> \<not> (nat (i + 1) \<le> k \<and> int k < n \<and> vt ! k = CHEM_SPEC_VARIABLE)
            \<longrightarrow> st' ! k = st1 ! k)"
        using "1.IH"(1)[OF True t var v st1 rec] "1.prems"(2,3) by simp
      have di: "dep_index vt (Suc (nat i)) = dep_index vt (nat i) + 1"
        using dep_index_Suc[OF ilen] var tv by simp
      have a: "length st' = length st" using ih st1val by simp
      have b: "\<forall>j. i \<le> j \<and> j < n \<and> vt ! nat j = CHEM_SPEC_VARIABLE \<longrightarrow>
          st' ! nat j = y ! (nat d + (dep_index vt (nat j) - dep_index vt (nat i)))"
      proof (intro allI impI)
        fix j assume j: "i \<le> j \<and> j < n \<and> vt ! nat j = CHEM_SPEC_VARIABLE"
        show "st' ! nat j = y ! (nat d + (dep_index vt (nat j) - dep_index vt (nat i)))"
        proof (cases "j = i")
          case True
          have "st' ! nat i = st1 ! nat i" using ih islen st1val nat_suc by simp
          then show ?thesis using True st1val islen vval by simp
        next
          case False
          then have j1: "i + 1 \<le> j" using j by simp
          then have "Suc (nat i) \<le> nat j" using "1.prems"(2) by simp
          then have "dep_index vt (Suc (nat i)) \<le> dep_index vt (nat j)" by (rule dep_index_mono)
          then have e: "nat (d + 1) + (dep_index vt (nat j) - dep_index vt (nat (i + 1)))
                   = nat d + (dep_index vt (nat j) - dep_index vt (nat i))"
            using di nat_suc nd by arith
          show ?thesis using ih j j1 e by metis
        qed
      qed
      have c: "\<forall>k. k < length st \<and> \<not> (nat i \<le> k \<and> int k < n \<and> vt ! k = CHEM_SPEC_VARIABLE)
          \<longrightarrow> st' ! k = st ! k"
      proof (intro allI impI)
        fix k assume k: "k < length st \<and> \<not> (nat i \<le> k \<and> int k < n \<and> vt ! k = CHEM_SPEC_VARIABLE)"
        have ki: "k \<noteq> nat i" using k True var tv "1.prems"(2) by auto
        have "\<not> (nat (i + 1) \<le> k \<and> int k < n \<and> vt ! k = CHEM_SPEC_VARIABLE)"
          using k nat_suc by auto
        then have "st' ! k = st1 ! k" using ih k st1val by simp
        then show "st' ! k = st ! k" using st1val ki by simp
      qed
      show ?thesis using a b c by blast
    next
      case nvar: False
      from p1 t nvar have rec: "y_to_state_loop n vt y (i + 1) d st = Some st'"
        by (auto split: Option.bind_splits)
      have ih: "length st' = length st \<and>
         (\<forall>j. i + 1 \<le> j \<and> j < n \<and> vt ! nat j = CHEM_SPEC_VARIABLE \<longrightarrow>
            st' ! nat j = y ! (nat d + (dep_index vt (nat j) - dep_index vt (nat (i + 1))))) \<and>
         (\<forall>k. k < length st \<and> \<not> (nat (i + 1) \<le> k \<and> int k < n \<and> vt ! k = CHEM_SPEC_VARIABLE)
            \<longrightarrow> st' ! k = st ! k)"
        using "1.IH"(2)[OF True t nvar rec] "1.prems"(2,3) by simp
      have di: "dep_index vt (Suc (nat i)) = dep_index vt (nat i)"
        using dep_index_Suc[OF ilen] nvar tv by simp
      have b: "\<forall>j. i \<le> j \<and> j < n \<and> vt ! nat j = CHEM_SPEC_VARIABLE \<longrightarrow>
          st' ! nat j = y ! (nat d + (dep_index vt (nat j) - dep_index vt (nat i)))"
      proof (intro allI impI)
        fix j assume j: "i \<le> j \<and> j < n \<and> vt ! nat j = CHEM_SPEC_VARIABLE"
        then have "j \<noteq> i" using nvar tv by auto
        then have j1: "i + 1 \<le> j" using j by simp
        show "st' ! nat j = y ! (nat d + (dep_index vt (nat j) - dep_index vt (nat i)))"
          using ih j j1 di nat_suc by metis
      qed
      have c: "\<forall>k. k < length st \<and> \<not> (nat i \<le> k \<and> int k < n \<and> vt ! k = CHEM_SPEC_VARIABLE)
          \<longrightarrow> st' ! k = st ! k"
      proof (intro allI impI)
        fix k assume k: "k < length st \<and> \<not> (nat i \<le> k \<and> int k < n \<and> vt ! k = CHEM_SPEC_VARIABLE)"
        have "\<not> (nat (i + 1) \<le> k \<and> int k < n \<and> vt ! k = CHEM_SPEC_VARIABLE)"
          using k nat_suc by auto
        then show "st' ! k = st ! k" using ih k by simp
      qed
      show ?thesis using ih b c by blast
    qed
  qed
qed

lemma dep_index_0 [simp]: "dep_index vt 0 = 0"
  by (simp add: dep_index_def)

lemma f_state:
  assumes "f t y deriv md = Some (r, deriv', md')"
  shows "y_to_state_loop (md_n_state_var md) (md_var_type md) y 0 0 (md_state md) = Some (md_state md')"
  using assms by (auto simp: f_def Let_def split: Option.bind_splits)

lemma Jac_state:
  assumes "Jac t y deriv J md = Some (r, J', md')"
  shows "y_to_state_loop (md_n_state_var md) (md_var_type md) y 0 0 (md_state md) = Some (md_state md')"
  using assms by (auto simp: Jac_def Let_def split: Option.bind_splits)

text \<open>
  Claim C9.  A call of \<open>f\<close> and a call of \<open>Jac\<close> that return leave a state array
  of the same length in which every entry whose type is \<open>CHEM_SPEC_VARIABLE\<close>
  holds the entry of the solver vector at the position of that species among
  the solver variables, and every entry of another type (constant, PSSA,
  unknown) is the one found on entry.
\<close>

theorem callbacks_refresh_state:
  "(f t y deriv md = Some (r, deriv', md') \<longrightarrow>
      length (md_state md') = length (md_state md) \<and>
      (\<forall>j. 0 \<le> j \<and> j < md_n_state_var md \<and> md_var_type md ! nat j = CHEM_SPEC_VARIABLE \<longrightarrow>
         md_state md' ! nat j = y ! dep_index (md_var_type md) (nat j)) \<and>
      (\<forall>k. k < length (md_state md) \<and> md_var_type md ! k \<noteq> CHEM_SPEC_VARIABLE \<longrightarrow>
         md_state md' ! k = md_state md ! k)) \<and>
   (Jac t y deriv J md = Some (r2, J', md'') \<longrightarrow>
      length (md_state md'') = length (md_state md) \<and>
      (\<forall>j. 0 \<le> j \<and> j < md_n_state_var md \<and> md_var_type md ! nat j = CHEM_SPEC_VARIABLE \<longrightarrow>
         md_state md'' ! nat j = y ! dep_index (md_var_type md) (nat j)) \<and>
      (\<forall>k. k < length (md_state md) \<and> md_var_type md ! k \<noteq> CHEM_SPEC_VARIABLE \<longrightarrow>
         md_state md'' ! k = md_state md ! k))"
proof (intro conjI impI)
  assume a: "f t y deriv md = Some (r, deriv', md')"
  note l = y_to_state_loop_spec[OF f_state[OF a]]
  show "length (md_state md') = length (md_state md)" using l by simp
  show "\<forall>j. 0 \<le> j \<and> j < md_n_state_var md \<and> md_var_type md ! nat j = CHEM_SPEC_VARIABLE \<longrightarrow>
         md_state md' ! nat j = y ! dep_index (md_var_type md) (nat j)" using l by simp
  show "\<forall>k. k < length (md_state md) \<and> md_var_type md ! k \<noteq> CHEM_SPEC_VARIABLE \<longrightarrow>
         md_state md' ! k = md_state md ! k" using l by simp
next
  assume a: "Jac t y deriv J md = Some (r2, J', md'')"
  note l = y_to_state_loop_spec[OF Jac_state[OF a]]
  show "length (md_state md'') = length (md_state md)" using l by simp
  show "\<forall>j. 0 \<le> j \<and> j < md_n_state_var md \<and> md_var_type md ! nat j = CHEM_SPEC_VARIABLE \<longrightarrow>
         md_state md'' ! nat j = y ! dep_index (md_var_type md) (nat j)" using l by simp
  show "\<forall>k. k < length (md_state md) \<and> md_var_type md ! k \<noteq> CHEM_SPEC_VARIABLE \<longrightarrow>
         md_state md'' ! k = md_state md ! k" using l by simp
qed


theorem callbacks_refresh_state_witness:
  "f 0 [2, 3] [0, 0] md0 = Some (0, [- 2, 2], md0\<lparr>md_state := [2, 7, 3]\<rparr>) \<and>
   Jac 0 [2, 3] [0, 0] (J0\<lparr>SM_NNZ := 1, SM_DATA := [9], SM_INDEXVALS := [5]\<rparr>) md0
     = Some (0, J0\<lparr>SM_DATA := [- 1, 1]\<rparr>, md0\<lparr>md_state := [2, 7, 3]\<rparr>) \<and>
   md_state md0 = [5, 7, 9] \<and>
   md_var_type md0 ! nat 2 = CHEM_SPEC_VARIABLE \<and>
   md_var_type md0 ! 1 \<noteq> CHEM_SPEC_VARIABLE \<and>
   dep_index (md_var_type md0) (nat 2) = 1 \<and>
   md_state (md0\<lparr>md_state := [2, 7, 3]\<rparr>) ! nat 2 = [2, 3] ! dep_index (md_var_type md0) (nat 2) \<and>
   md_state (md0\<lparr>md_state := [2, 7, 3]\<rparr>) ! 1 = md_state md0 ! 1"
proof -
  have cf: "f 0 [2, 3] [0, 0] md0 = Some (0, [- 2, 2], md0\<lparr>md_state := [2, 7, 3]\<rparr>)"
    by (simp add: f_def rxn_calc_deriv_def rxn_arrhenius_calc_deriv_contrib_def md0_def
        rxnAC_def macro_defs loop_simps encode_rxn_def const_defs)
  have cj: "Jac 0 [2, 3] [0, 0] (J0\<lparr>SM_NNZ := 1, SM_DATA := [9], SM_INDEXVALS := [5]\<rparr>) md0
     = Some (0, J0\<lparr>SM_DATA := [- 1, 1]\<rparr>, md0\<lparr>md_state := [2, 7, 3]\<rparr>)"
    by (simp add: Jac_def rxn_calc_jac_def rxn_arrhenius_calc_jac_contrib_def md0_def J0_def
        rxnAC_def macro_defs loop_simps encode_rxn_def const_defs realloc_def)
  have st: "md_state md0 = [5, 7, 9]"
    and v2: "md_var_type md0 ! nat 2 = CHEM_SPEC_VARIABLE"
    and v1: "md_var_type md0 ! 1 \<noteq> CHEM_SPEC_VARIABLE"
    and n: "(2::int) < md_n_state_var md0"
    and d2: "dep_index (md_var_type md0) (nat 2) = 1"
    by (simp_all add: md0_def const_defs dep_index_def numeral_2_eq_2)
  note inst = callbacks_refresh_state[of 0 "[2, 3]" "[0, 0]" md0 0 "[- 2, 2]"
      "md0\<lparr>md_state := [2, 7, 3]\<rparr>" "J0\<lparr>SM_NNZ := 1, SM_DATA := [9], SM_INDEXVALS := [5]\<rparr>"
      0 "J0\<lparr>SM_DATA := [- 1, 1]\<rparr>" "md0\<lparr>md_state := [2, 7, 3]\<rparr>"]
  have fa: "\<forall>j. 0 \<le> j \<and> j < md_n_state_var md0 \<and> md_var_type md0 ! nat j = CHEM_SPEC_VARIABLE \<longrightarrow>
         md_state (md0\<lparr>md_state := [2, 7, 3]\<rparr>) ! nat j = [2, 3] ! dep_index (md_var_type md0) (nat j)"
    using inst cf by blast
  have pa: "0 \<le> (2::int) \<and> 2 < md_n_state_var md0 \<and> md_var_type md0 ! nat 2 = CHEM_SPEC_VARIABLE"
    using n v2 by simp
  have a: "md_state (md0\<lparr>md_state := [2, 7, 3]\<rparr>) ! nat 2
             = [2, 3] ! dep_index (md_var_type md0) (nat 2)"
    using fa pa by blast
  have fb: "\<forall>k. k < length (md_state md0) \<and> md_var_type md0 ! k \<noteq> CHEM_SPEC_VARIABLE \<longrightarrow>
         md_state (md0\<lparr>md_state := [2, 7, 3]\<rparr>) ! k = md_state md0 ! k"
    using inst cj by blast
  have pb: "1 < length (md_state md0) \<and> md_var_type md0 ! 1 \<noteq> CHEM_SPEC_VARIABLE"
    using st v1 by simp
  have b: "md_state (md0\<lparr>md_state := [2, 7, 3]\<rparr>) ! 1 = md_state md0 ! 1"
    using fb pb by blast
  show ?thesis using cf cj st v2 v1 d2 a b by blast
qed

section \<open>solver_run and the flag checks\<close>

lemma word_addr_not_neg: "\<not> (a < (0 :: 64 word))"
  by simp

lemma check_flag_opt1: "check_flag \<lparr>addr = a, deref_int = v\<rparr> func_name 1 = (PHLEX_SOLVER_SUCCESS, [])"
  by (simp add: check_flag_def)

lemma check_flag_fail_opt1: "check_flag_fail \<lparr>addr = a, deref_int = v\<rparr> func_name 1 = (Returned (), [])"
  by (simp add: check_flag_fail_def check_flag_opt1 PHLEX_SOLVER_SUCCESS_def PHLEX_SOLVER_FAIL_def)

lemma solver_run_unfold:
  "solver_run r CVode a sd state env t_initial t_final = do {
     y1 \<leftarrow> state_to_y_loop (md_n_state_var (sd_model_data sd)) (md_var_type (sd_model_data sd)) state 0 0 (sd_y sd);
     rxn_data \<leftarrow> rxn_update_env_state env (md_rxn_data (sd_model_data sd));
     let sd2 = snd (CVode (sd\<lparr>sd_y := y1, sd_model_data := (sd_model_data sd)\<lparr>md_state := state, md_env := env, md_rxn_data := rxn_data\<rparr>\<rparr>) t_final t_initial);
     y3 \<leftarrow> state_to_y_loop (md_n_state_var (sd_model_data sd2)) (md_var_type (sd_model_data sd2)) (md_state (sd_model_data sd2)) 0 0 (sd_y sd2);
     Some (Returned (PHLEX_SOLVER_SUCCESS, sd2\<lparr>sd_y := y3\<rparr>)) }"
  by (simp add: solver_run_def Let_def seq_check_def check_flag_fail_opt1 check_flag_opt1
      PHLEX_SOLVER_SUCCESS_def PHLEX_SOLVER_FAIL_def case_prod_beta)

text \<open>
  Claim C10.  When \<open>solver_run\<close> returns \<open>PHLEX_SOLVER_SUCCESS\<close>, the model data it
  leaves, the caller's state array included, is exactly what \<open>CVode\<close> left: the
  loop after the integration writes no element of the state array.  What the
  loop writes is the solver vector: it is the result of the same
  state-to-vector loop that runs before the integration, so afterwards the
  solver vector holds, for every variable species, the entry of the state array
  and not the integrated value.
\<close>

theorem solver_run_final_loop:
  assumes "solver_run r CVode a sd state env t_initial t_final
             = Some (Returned (PHLEX_SOLVER_SUCCESS, sd'))"
  shows "\<exists>y1 rxn_data flag sd2.
           state_to_y_loop (md_n_state_var (sd_model_data sd)) (md_var_type (sd_model_data sd))
              state 0 0 (sd_y sd) = Some y1 \<and>
           rxn_update_env_state env (md_rxn_data (sd_model_data sd)) = Some rxn_data \<and>
           CVode (sd\<lparr>sd_y := y1, sd_model_data := (sd_model_data sd)
                     \<lparr>md_state := state, md_env := env, md_rxn_data := rxn_data\<rparr>\<rparr>)
             t_final t_initial = (flag, sd2) \<and>
           sd_model_data sd' = sd_model_data sd2 \<and>
           state_to_y_loop (md_n_state_var (sd_model_data sd2)) (md_var_type (sd_model_data sd2))
              (md_state (sd_model_data sd2)) 0 0 (sd_y sd2) = Some (sd_y sd') \<and>
           length (sd_y sd') = length (sd_y sd2) \<and>
           (\<forall>j. 0 \<le> j \<and> j < md_n_state_var (sd_model_data sd2) \<and>
                md_var_type (sd_model_data sd2) ! nat j = CHEM_SPEC_VARIABLE \<longrightarrow>
                sd_y sd' ! dep_index (md_var_type (sd_model_data sd2)) (nat j)
                  = md_state (sd_model_data sd2) ! nat j)"
proof -
  from assms[unfolded solver_run_unfold] obtain y1 rxn_data y3 where
    y1: "state_to_y_loop (md_n_state_var (sd_model_data sd)) (md_var_type (sd_model_data sd))
           state 0 0 (sd_y sd) = Some y1"
    and rx: "rxn_update_env_state env (md_rxn_data (sd_model_data sd)) = Some rxn_data"
    and y3: "state_to_y_loop
        (md_n_state_var (sd_model_data (snd (CVode (sd\<lparr>sd_y := y1, sd_model_data := (sd_model_data sd)\<lparr>md_state := state, md_env := env, md_rxn_data := rxn_data\<rparr>\<rparr>) t_final t_initial))))
        (md_var_type (sd_model_data (snd (CVode (sd\<lparr>sd_y := y1, sd_model_data := (sd_model_data sd)\<lparr>md_state := state, md_env := env, md_rxn_data := rxn_data\<rparr>\<rparr>) t_final t_initial))))
        (md_state (sd_model_data (snd (CVode (sd\<lparr>sd_y := y1, sd_model_data := (sd_model_data sd)\<lparr>md_state := state, md_env := env, md_rxn_data := rxn_data\<rparr>\<rparr>) t_final t_initial))))
        0 0 (sd_y (snd (CVode (sd\<lparr>sd_y := y1, sd_model_data := (sd_model_data sd)\<lparr>md_state := state, md_env := env, md_rxn_data := rxn_data\<rparr>\<rparr>) t_final t_initial))) = Some y3"
    and sd': "sd' = (snd (CVode (sd\<lparr>sd_y := y1, sd_model_data := (sd_model_data sd)\<lparr>md_state := state, md_env := env, md_rxn_data := rxn_data\<rparr>\<rparr>) t_final t_initial))\<lparr>sd_y := y3\<rparr>"
    by (auto simp: Let_def split: Option.bind_splits)
  define sd1 where "sd1 = sd\<lparr>sd_y := y1, sd_model_data := (sd_model_data sd)
      \<lparr>md_state := state, md_env := env, md_rxn_data := rxn_data\<rparr>\<rparr>"
  define sd2 where "sd2 = snd (CVode sd1 t_final t_initial)"
  have cv: "CVode sd1 t_final t_initial = (fst (CVode sd1 t_final t_initial), sd2)"
    by (simp add: sd2_def)
  have loop: "state_to_y_loop (md_n_state_var (sd_model_data sd2)) (md_var_type (sd_model_data sd2))
              (md_state (sd_model_data sd2)) 0 0 (sd_y sd2) = Some (sd_y sd')"
    using y3 sd' by (simp add: sd2_def sd1_def)
  have md: "sd_model_data sd' = sd_model_data sd2"
    using sd' by (simp add: sd2_def sd1_def)
  note l = state_to_y_loop_spec[OF loop]
  have post: "length (sd_y sd') = length (sd_y sd2) \<and>
           (\<forall>j. 0 \<le> j \<and> j < md_n_state_var (sd_model_data sd2) \<and>
                md_var_type (sd_model_data sd2) ! nat j = CHEM_SPEC_VARIABLE \<longrightarrow>
                sd_y sd' ! dep_index (md_var_type (sd_model_data sd2)) (nat j)
                  = md_state (sd_model_data sd2) ! nat j)"
    using l by simp
  show ?thesis
    using y1 rx cv[unfolded sd1_def] loop md post by blast
qed

lemma solver_run_sd0:
  "solver_run 0 (cvode_stub flag [1, 2]) 4096 sd0 [5, 7, 9] [300, 101325] 0 1
     = Some (Returned (PHLEX_SOLVER_SUCCESS, sd0\<lparr>sd_y := [5, 9]\<rparr>))"
  by (simp add: solver_run_def sd0_def md0_def rxnAC_def macro_defs loop_simps encode_rxn_def
      const_defs rxn_update_env_state_def rxn_arrhenius_update_env_state_def
      SUNRexp_def SUNRpowerI_def SUNRpowerR_def seq_check_def check_flag_fail_def
      check_flag_def cvode_stub_def Let_def)

theorem solver_run_final_loop_witness:
  "solver_run 0 (cvode_stub 0 [1, 2]) 4096 sd0 [5, 7, 9] [300, 101325] 0 1
     = Some (Returned (PHLEX_SOLVER_SUCCESS, sd0\<lparr>sd_y := [5, 9]\<rparr>)) \<and>
   (\<exists>y1 rxn_data flag sd2.
      state_to_y_loop (md_n_state_var (sd_model_data sd0)) (md_var_type (sd_model_data sd0))
         [5, 7, 9] 0 0 (sd_y sd0) = Some y1 \<and>
      rxn_update_env_state [300, 101325] (md_rxn_data (sd_model_data sd0)) = Some rxn_data \<and>
      cvode_stub 0 [1, 2] (sd0\<lparr>sd_y := y1, sd_model_data := (sd_model_data sd0)
           \<lparr>md_state := [5, 7, 9], md_env := [300, 101325], md_rxn_data := rxn_data\<rparr>\<rparr>) 1 0
        = (flag, sd2) \<and>
      sd_model_data (sd0\<lparr>sd_y := [5, 9]\<rparr>) = sd_model_data sd2 \<and>
      state_to_y_loop (md_n_state_var (sd_model_data sd2)) (md_var_type (sd_model_data sd2))
         (md_state (sd_model_data sd2)) 0 0 (sd_y sd2) = Some (sd_y (sd0\<lparr>sd_y := [5, 9]\<rparr>)) \<and>
      length (sd_y (sd0\<lparr>sd_y := [5, 9]\<rparr>)) = length (sd_y sd2) \<and>
      (\<forall>j. 0 \<le> j \<and> j < md_n_state_var (sd_model_data sd2) \<and>
           md_var_type (sd_model_data sd2) ! nat j = CHEM_SPEC_VARIABLE \<longrightarrow>
           sd_y (sd0\<lparr>sd_y := [5, 9]\<rparr>) ! dep_index (md_var_type (sd_model_data sd2)) (nat j)
             = md_state (sd_model_data sd2) ! nat j)) \<and>
   md_state (sd_model_data (sd0\<lparr>sd_y := [5, 9]\<rparr>)) = [5, 7, 9]"
proof -
  have run: "solver_run 0 (cvode_stub 0 [1, 2]) 4096 sd0 [5, 7, 9] [300, 101325] 0 1
               = Some (Returned (PHLEX_SOLVER_SUCCESS, sd0\<lparr>sd_y := [5, 9]\<rparr>))"
    by (rule solver_run_sd0)
  have st: "md_state (sd_model_data (sd0\<lparr>sd_y := [5, 9]\<rparr>)) = [5, 7, 9]"
    by (simp add: sd0_def md0_def)
  show ?thesis
    using run solver_run_final_loop[OF run] st by blast
qed

section \<open>The cached rate constant\<close>









section \<open>The Jacobian contribution of a record\<close>

lemma sum_int_ivl: "i < n \<Longrightarrow> (\<Sum>j\<in>{i..<n}. h j) = h i + (\<Sum>j\<in>{i + 1..<n}. h j)"
  for i n :: int and h :: "int \<Rightarrow> real"
  by (simp add: int_ivl_split[of i n])

lemma arr_get_Some: "0 \<le> i \<Longrightarrow> i < int (length xs) \<Longrightarrow> arr_get xs i = Some (xs ! nat i)"
  by (simp add: arr_get_def)

lemma arr_set_Some: "0 \<le> i \<Longrightarrow> i < int (length xs) \<Longrightarrow> arr_set xs i v = Some (xs[nat i := v])"
  by (simp add: arr_set_def)

lemma jac_react_inner_spec:
  assumes "\<forall>j. i \<le> j \<and> j < nr \<longrightarrow> REACT buf p j = Some (rs j) \<and> arr_get state (rs j) = Some (cs j)"
    and "\<forall>j. i \<le> j \<and> j < nr \<longrightarrow>
           JAC_ID buf p nr np (e + (j - i)) = Some (g j) \<and> 0 \<le> g j \<and> g j < int (length J)"
  shows "\<exists>J'. jac_react_inner state buf p nr np rate i e J
                 = Some (J', e + (if i < nr then nr - i else 0)) \<and>
              length J' = length J \<and>
              (\<forall>s. s < length J \<longrightarrow>
                 J' ! s = J ! s - (\<Sum>j\<in>{i..<nr}. if g j = int s then rate / cs j else 0))"
  using assms
proof (induction state buf p nr np rate i e J rule: jac_react_inner.induct)
  case (1 state buf p nr np rate i e J)
  show ?case
  proof (cases "i < nr")
    case False
    then show ?thesis by (subst jac_react_inner.simps) simp
  next
    case True
    have slot: "JAC_ID buf p nr np e = Some (g i)" and g0: "0 \<le> g i" and g1: "g i < int (length J)"
      using "1.prems"(2) True by (auto dest: spec[of _ i])
    have r: "REACT buf p i = Some (rs i)" and c: "arr_get state (rs i) = Some (cs i)"
      using "1.prems"(1) True by auto
    have old: "arr_get J (g i) = Some (J ! nat (g i))" using g0 g1 by (rule arr_get_Some)
    define J1 where "J1 = J[nat (g i) := J ! nat (g i) - rate / cs i]"
    have set: "arr_set J (g i) (J ! nat (g i) - rate / cs i) = Some J1"
      unfolding J1_def using g0 g1 by (rule arr_set_Some)
    have len1: "length J1 = length J" by (simp add: J1_def)
    have p1: "\<forall>j. i + 1 \<le> j \<and> j < nr \<longrightarrow>
        REACT buf p j = Some (rs j) \<and> arr_get state (rs j) = Some (cs j)"
      using "1.prems"(1) by simp
    have p2: "\<forall>j. i + 1 \<le> j \<and> j < nr \<longrightarrow>
        JAC_ID buf p nr np (e + 1 + (j - (i + 1))) = Some (g j) \<and> 0 \<le> g j \<and> g j < int (length J1)"
    proof (intro allI impI)
      fix j assume j: "i + 1 \<le> j \<and> j < nr"
      have "e + 1 + (j - (i + 1)) = e + (j - i)" by simp
      then show "JAC_ID buf p nr np (e + 1 + (j - (i + 1))) = Some (g j) \<and> 0 \<le> g j \<and> g j < int (length J1)"
        using "1.prems"(2) j len1 by simp
    qed
    from "1.IH"[OF True slot r c old set p1 p2] obtain J' where
      rec: "jac_react_inner state buf p nr np rate (i + 1) (e + 1) J1
              = Some (J', e + 1 + (if i + 1 < nr then nr - (i + 1) else 0))"
      and len: "length J' = length J1"
      and val: "\<forall>s. s < length J1 \<longrightarrow>
          J' ! s = J1 ! s - (\<Sum>j\<in>{i + 1..<nr}. if g j = int s then rate / cs j else 0)"
      by blast
    have ptr: "e + 1 + (if i + 1 < nr then nr - (i + 1) else 0) = e + (if i < nr then nr - i else 0)"
      using True by simp
    have run: "jac_react_inner state buf p nr np rate i e J
                 = Some (J', e + (if i < nr then nr - i else 0))"
      using True slot r c old set rec ptr by (subst jac_react_inner.simps) simp
    have v: "\<forall>s. s < length J \<longrightarrow>
        J' ! s = J ! s - (\<Sum>j\<in>{i..<nr}. if g j = int s then rate / cs j else 0)"
    proof (intro allI impI)
      fix s assume s: "s < length J"
      have a: "J1 ! s = J ! s - (if g i = int s then rate / cs i else 0)"
        using g0 g1 s by (auto simp: J1_def nth_list_update)
      have "J' ! s = J1 ! s - (\<Sum>j\<in>{i + 1..<nr}. if g j = int s then rate / cs j else 0)"
        using val s len1 by simp
      then show "J' ! s = J ! s - (\<Sum>j\<in>{i..<nr}. if g j = int s then rate / cs j else 0)"
        unfolding a sum_int_ivl[OF True] by simp
    qed
    show ?thesis using run len len1 v by auto
  qed
qed

lemma jac_react_outer_spec:
  assumes "\<forall>j. 0 \<le> j \<and> j < nr \<longrightarrow> REACT buf p j = Some (rs j) \<and> arr_get state (rs j) = Some (cs j)"
    and "\<forall>d j. d0 \<le> d \<and> d < nr \<and> 0 \<le> j \<and> j < nr \<longrightarrow>
           JAC_ID buf p nr np (e + (d - d0) * nr + j) = Some (g d j) \<and>
           0 \<le> g d j \<and> g d j < int (length J)"
    and "0 \<le> d0"
  shows "\<exists>J'. jac_react_outer state buf p nr np rate d0 e J
                 = Some (J', e + (if d0 < nr then (nr - d0) * nr else 0)) \<and>
              length J' = length J \<and>
              (\<forall>s. s < length J \<longrightarrow>
                 J' ! s = J ! s - (\<Sum>d\<in>{d0..<nr}. \<Sum>j\<in>{0..<nr}.
                                      if g d j = int s then rate / cs j else 0))"
  using assms
proof (induction state buf p nr np rate d0 e J rule: jac_react_outer.induct)
  case (1 state buf p nr np rate d0 e J)
  show ?case
  proof (cases "d0 < nr")
    case False
    then show ?thesis by (subst jac_react_outer.simps) simp
  next
    case True
    have nrpos: "0 < nr" using True "1.prems"(3) by simp
    have q2: "\<forall>j. 0 \<le> j \<and> j < nr \<longrightarrow>
        JAC_ID buf p nr np (e + (j - 0)) = Some (g d0 j) \<and> 0 \<le> g d0 j \<and> g d0 j < int (length J)"
    proof (intro allI impI)
      fix j assume j: "0 \<le> j \<and> j < nr"
      have "e + (d0 - d0) * nr + j = e + (j - 0)" by simp
      then show "JAC_ID buf p nr np (e + (j - 0)) = Some (g d0 j) \<and> 0 \<le> g d0 j \<and> g d0 j < int (length J)"
        using "1.prems"(2) j True by (metis order_refl)
    qed
    from jac_react_inner_spec[OF "1.prems"(1) q2, of rate] obtain J1 where
      inner: "jac_react_inner state buf p nr np rate 0 e J = Some (J1, e + nr)"
      and len1: "length J1 = length J"
      and val1: "\<forall>s. s < length J \<longrightarrow>
          J1 ! s = J ! s - (\<Sum>j\<in>{0..<nr}. if g d0 j = int s then rate / cs j else 0)"
      using nrpos by auto
    have p2: "\<forall>d j. d0 + 1 \<le> d \<and> d < nr \<and> 0 \<le> j \<and> j < nr \<longrightarrow>
           JAC_ID buf p nr np (e + nr + (d - (d0 + 1)) * nr + j) = Some (g d j) \<and>
           0 \<le> g d j \<and> g d j < int (length J1)"
    proof (intro allI impI)
      fix d j assume dj: "d0 + 1 \<le> d \<and> d < nr \<and> 0 \<le> j \<and> j < nr"
      have eq: "e + nr + (d - (d0 + 1)) * nr + j = e + (d - d0) * nr + j"
        by (simp add: algebra_simps)
      have "d0 \<le> d \<and> d < nr \<and> 0 \<le> j \<and> j < nr" using dj by simp
      then have "JAC_ID buf p nr np (e + (d - d0) * nr + j) = Some (g d j) \<and>
           0 \<le> g d j \<and> g d j < int (length J)"
        using "1.prems"(2) by blast
      then show "JAC_ID buf p nr np (e + nr + (d - (d0 + 1)) * nr + j) = Some (g d j) \<and>
           0 \<le> g d j \<and> g d j < int (length J1)"
        by (simp only: eq len1)
    qed
    have p3: "0 \<le> d0 + 1" using "1.prems"(3) by simp
    from "1.IH"[OF True inner refl "1.prems"(1) p2 p3] obtain J' where
      rec: "jac_react_outer state buf p nr np rate (d0 + 1) (e + nr) J1
              = Some (J', e + nr + (if d0 + 1 < nr then (nr - (d0 + 1)) * nr else 0))"
      and len: "length J' = length J1"
      and val: "\<forall>s. s < length J1 \<longrightarrow>
          J' ! s = J1 ! s - (\<Sum>d\<in>{d0 + 1..<nr}. \<Sum>j\<in>{0..<nr}.
                                 if g d j = int s then rate / cs j else 0)"
      by blast
    have ptr: "e + nr + (if d0 + 1 < nr then (nr - (d0 + 1)) * nr else 0)
                 = e + (if d0 < nr then (nr - d0) * nr else 0)"
    proof (cases "d0 + 1 < nr")
      case lt: True
      then show ?thesis using True by (simp add: algebra_simps)
    next
      case False
      then have "nr = d0 + 1" using True by simp
      then show ?thesis by (simp add: algebra_simps)
    qed
    have run: "jac_react_outer state buf p nr np rate d0 e J
                 = Some (J', e + (if d0 < nr then (nr - d0) * nr else 0))"
      using True inner rec ptr by (subst jac_react_outer.simps) simp
    have v: "\<forall>s. s < length J \<longrightarrow>
        J' ! s = J ! s - (\<Sum>d\<in>{d0..<nr}. \<Sum>j\<in>{0..<nr}.
                             if g d j = int s then rate / cs j else 0)"
    proof (intro allI impI)
      fix s assume s: "s < length J"
      have a: "J1 ! s = J ! s - (\<Sum>j\<in>{0..<nr}. if g d0 j = int s then rate / cs j else 0)"
        using val1 s by simp
      have "J' ! s = J1 ! s - (\<Sum>d\<in>{d0 + 1..<nr}. \<Sum>j\<in>{0..<nr}.
                                 if g d j = int s then rate / cs j else 0)"
        using val s len1 by simp
      then show "J' ! s = J ! s - (\<Sum>d\<in>{d0..<nr}. \<Sum>j\<in>{0..<nr}.
                             if g d j = int s then rate / cs j else 0)"
        unfolding a sum_int_ivl[OF True] by simp
    qed
    show ?thesis using run len len1 v by auto
  qed
qed

lemma jac_prod_inner_spec:
  assumes "\<forall>j. i \<le> j \<and> j < nr \<longrightarrow> REACT buf p j = Some (rs j) \<and> arr_get state (rs j) = Some (cs j)"
    and "\<forall>j. i \<le> j \<and> j < nr \<longrightarrow>
           JAC_ID buf p nr np (e + (j - i)) = Some (g j) \<and> 0 \<le> g j \<and> g j < int (length J)"
    and "yield buf fd i_dep = Some yv"
  shows "\<exists>J'. jac_prod_inner state buf p nr np fd rate i_dep i e J
                 = Some (J', e + (if i < nr then nr - i else 0)) \<and>
              length J' = length J \<and>
              (\<forall>s. s < length J \<longrightarrow>
                 J' ! s = J ! s + (\<Sum>j\<in>{i..<nr}. if g j = int s then yv * rate / cs j else 0))"
  using assms
proof (induction state buf p nr np fd rate i_dep i e J rule: jac_prod_inner.induct)
  case (1 state buf p nr np fd rate i_dep i e J)
  show ?case
  proof (cases "i < nr")
    case False
    then show ?thesis by (subst jac_prod_inner.simps) simp
  next
    case True
    have slot: "JAC_ID buf p nr np e = Some (g i)" and g0: "0 \<le> g i" and g1: "g i < int (length J)"
      using "1.prems"(2) True by (auto dest: spec[of _ i])
    have r: "REACT buf p i = Some (rs i)" and c: "arr_get state (rs i) = Some (cs i)"
      using "1.prems"(1) True by auto
    have old: "arr_get J (g i) = Some (J ! nat (g i))" using g0 g1 by (rule arr_get_Some)
    define J1 where "J1 = J[nat (g i) := J ! nat (g i) + yv * rate / cs i]"
    have set: "arr_set J (g i) (J ! nat (g i) + yv * rate / cs i) = Some J1"
      unfolding J1_def using g0 g1 by (rule arr_set_Some)
    have len1: "length J1 = length J" by (simp add: J1_def)
    have p1: "\<forall>j. i + 1 \<le> j \<and> j < nr \<longrightarrow>
        REACT buf p j = Some (rs j) \<and> arr_get state (rs j) = Some (cs j)"
      using "1.prems"(1) by simp
    have p2: "\<forall>j. i + 1 \<le> j \<and> j < nr \<longrightarrow>
        JAC_ID buf p nr np (e + 1 + (j - (i + 1))) = Some (g j) \<and> 0 \<le> g j \<and> g j < int (length J1)"
    proof (intro allI impI)
      fix j assume j: "i + 1 \<le> j \<and> j < nr"
      have "e + 1 + (j - (i + 1)) = e + (j - i)" by simp
      then show "JAC_ID buf p nr np (e + 1 + (j - (i + 1))) = Some (g j) \<and> 0 \<le> g j \<and> g j < int (length J1)"
        using "1.prems"(2) j len1 by simp
    qed
    from "1.IH"[OF True slot "1.prems"(3) r c old set p1 p2 "1.prems"(3)] obtain J' where
      rec: "jac_prod_inner state buf p nr np fd rate i_dep (i + 1) (e + 1) J1
              = Some (J', e + 1 + (if i + 1 < nr then nr - (i + 1) else 0))"
      and len: "length J' = length J1"
      and val: "\<forall>s. s < length J1 \<longrightarrow>
          J' ! s = J1 ! s + (\<Sum>j\<in>{i + 1..<nr}. if g j = int s then yv * rate / cs j else 0)"
      by blast
    have ptr: "e + 1 + (if i + 1 < nr then nr - (i + 1) else 0) = e + (if i < nr then nr - i else 0)"
      using True by simp
    have run: "jac_prod_inner state buf p nr np fd rate i_dep i e J
                 = Some (J', e + (if i < nr then nr - i else 0))"
      using True slot r c old set rec ptr "1.prems"(3) by (subst jac_prod_inner.simps) simp
    have v: "\<forall>s. s < length J \<longrightarrow>
        J' ! s = J ! s + (\<Sum>j\<in>{i..<nr}. if g j = int s then yv * rate / cs j else 0)"
    proof (intro allI impI)
      fix s assume s: "s < length J"
      have a: "J1 ! s = J ! s + (if g i = int s then yv * rate / cs i else 0)"
        using g0 g1 s by (auto simp: J1_def nth_list_update)
      have "J' ! s = J1 ! s + (\<Sum>j\<in>{i + 1..<nr}. if g j = int s then yv * rate / cs j else 0)"
        using val s len1 by simp
      then show "J' ! s = J ! s + (\<Sum>j\<in>{i..<nr}. if g j = int s then yv * rate / cs j else 0)"
        unfolding a sum_int_ivl[OF True] by simp
    qed
    show ?thesis using run len len1 v by auto
  qed
qed

lemma jac_prod_outer_spec:
  assumes "\<forall>j. 0 \<le> j \<and> j < nr \<longrightarrow> REACT buf p j = Some (rs j) \<and> arr_get state (rs j) = Some (cs j)"
    and "\<forall>d j. d0 \<le> d \<and> d < np \<and> 0 \<le> j \<and> j < nr \<longrightarrow>
           JAC_ID buf p nr np (e + (d - d0) * nr + j) = Some (g d j) \<and>
           0 \<le> g d j \<and> g d j < int (length J)"
    and "\<forall>d. d0 \<le> d \<and> d < np \<longrightarrow> yield buf fd d = Some (ys d)"
    and "0 \<le> d0" and "0 \<le> nr"
  shows "\<exists>J'. jac_prod_outer state buf p nr np fd rate d0 e J
                 = Some (J', e + (if d0 < np then (np - d0) * nr else 0)) \<and>
              length J' = length J \<and>
              (\<forall>s. s < length J \<longrightarrow>
                 J' ! s = J ! s + (\<Sum>d\<in>{d0..<np}. \<Sum>j\<in>{0..<nr}.
                                      if g d j = int s then ys d * rate / cs j else 0))"
  using assms
proof (induction state buf p nr np fd rate d0 e J rule: jac_prod_outer.induct)
  case (1 state buf p nr np fd rate d0 e J)
  show ?case
  proof (cases "d0 < np")
    case False
    then show ?thesis by (subst jac_prod_outer.simps) simp
  next
    case True
    have y: "yield buf fd d0 = Some (ys d0)" using "1.prems"(3) True by simp
    have q2: "\<forall>j. 0 \<le> j \<and> j < nr \<longrightarrow>
        JAC_ID buf p nr np (e + (j - 0)) = Some (g d0 j) \<and> 0 \<le> g d0 j \<and> g d0 j < int (length J)"
    proof (intro allI impI)
      fix j assume j: "0 \<le> j \<and> j < nr"
      have eq: "e + (j - 0) = e + (d0 - d0) * nr + j" by simp
      have "d0 \<le> d0 \<and> d0 < np \<and> 0 \<le> j \<and> j < nr" using j True by simp
      then have "JAC_ID buf p nr np (e + (d0 - d0) * nr + j) = Some (g d0 j) \<and>
          0 \<le> g d0 j \<and> g d0 j < int (length J)"
        using "1.prems"(2) by blast
      then show "JAC_ID buf p nr np (e + (j - 0)) = Some (g d0 j) \<and> 0 \<le> g d0 j \<and> g d0 j < int (length J)"
        by (simp only: eq)
    qed
    have adv: "e + (if 0 < nr then nr - 0 else 0) = e + nr" using "1.prems"(5) by simp
    from jac_prod_inner_spec[OF "1.prems"(1) q2 y, of rate] obtain J1 where
      inner: "jac_prod_inner state buf p nr np fd rate d0 0 e J = Some (J1, e + nr)"
      and len1: "length J1 = length J"
      and val1: "\<forall>s. s < length J \<longrightarrow>
          J1 ! s = J ! s + (\<Sum>j\<in>{0..<nr}. if g d0 j = int s then ys d0 * rate / cs j else 0)"
      unfolding adv by blast
    have p2: "\<forall>d j. d0 + 1 \<le> d \<and> d < np \<and> 0 \<le> j \<and> j < nr \<longrightarrow>
           JAC_ID buf p nr np (e + nr + (d - (d0 + 1)) * nr + j) = Some (g d j) \<and>
           0 \<le> g d j \<and> g d j < int (length J1)"
    proof (intro allI impI)
      fix d j assume dj: "d0 + 1 \<le> d \<and> d < np \<and> 0 \<le> j \<and> j < nr"
      have eq: "e + nr + (d - (d0 + 1)) * nr + j = e + (d - d0) * nr + j"
        by (simp add: algebra_simps)
      have "d0 \<le> d \<and> d < np \<and> 0 \<le> j \<and> j < nr" using dj by simp
      then have "JAC_ID buf p nr np (e + (d - d0) * nr + j) = Some (g d j) \<and>
           0 \<le> g d j \<and> g d j < int (length J)"
        using "1.prems"(2) by blast
      then show "JAC_ID buf p nr np (e + nr + (d - (d0 + 1)) * nr + j) = Some (g d j) \<and>
           0 \<le> g d j \<and> g d j < int (length J1)"
        by (simp only: eq len1)
    qed
    have p3: "\<forall>d. d0 + 1 \<le> d \<and> d < np \<longrightarrow> yield buf fd d = Some (ys d)"
      using "1.prems"(3) by simp
    have p4: "0 \<le> d0 + 1" using "1.prems"(4) by simp
    from "1.IH"[OF True inner refl "1.prems"(1) p2 p3 p4 "1.prems"(5)] obtain J' where
      rec: "jac_prod_outer state buf p nr np fd rate (d0 + 1) (e + nr) J1
              = Some (J', e + nr + (if d0 + 1 < np then (np - (d0 + 1)) * nr else 0))"
      and len: "length J' = length J1"
      and val: "\<forall>s. s < length J1 \<longrightarrow>
          J' ! s = J1 ! s + (\<Sum>d\<in>{d0 + 1..<np}. \<Sum>j\<in>{0..<nr}.
                                 if g d j = int s then ys d * rate / cs j else 0)"
      by blast
    have ptr: "e + nr + (if d0 + 1 < np then (np - (d0 + 1)) * nr else 0)
                 = e + (if d0 < np then (np - d0) * nr else 0)"
    proof (cases "d0 + 1 < np")
      case lt: True
      then show ?thesis using True by (simp add: algebra_simps)
    next
      case False
      then have "np = d0 + 1" using True by simp
      then show ?thesis by (simp add: algebra_simps)
    qed
    have run: "jac_prod_outer state buf p nr np fd rate d0 e J
                 = Some (J', e + (if d0 < np then (np - d0) * nr else 0))"
      using True inner rec ptr by (subst jac_prod_outer.simps) simp
    have v: "\<forall>s. s < length J \<longrightarrow>
        J' ! s = J ! s + (\<Sum>d\<in>{d0..<np}. \<Sum>j\<in>{0..<nr}.
                             if g d j = int s then ys d * rate / cs j else 0)"
    proof (intro allI impI)
      fix s assume s: "s < length J"
      have a: "J1 ! s = J ! s + (\<Sum>j\<in>{0..<nr}. if g d0 j = int s then ys d0 * rate / cs j else 0)"
        using val1 s by simp
      have "J' ! s = J1 ! s + (\<Sum>d\<in>{d0 + 1..<np}. \<Sum>j\<in>{0..<nr}.
                                 if g d j = int s then ys d * rate / cs j else 0)"
        using val s len1 by simp
      then show "J' ! s = J ! s + (\<Sum>d\<in>{d0..<np}. \<Sum>j\<in>{0..<nr}.
                             if g d j = int s then ys d * rate / cs j else 0)"
        unfolding a sum_int_ivl[OF True] by simp
    qed
    show ?thesis using run len len1 v by auto
  qed
qed

lemma pair_index_bound:
  fixes d j n m :: int
  assumes "0 \<le> d" "d < n" "0 \<le> j" "j < m"
  shows "0 \<le> d * m + j \<and> d * m + j < n * m"
proof -
  have m0: "0 \<le> m" using assms by simp
  have "d * m + j < d * m + m" using assms by simp
  also have "\<dots> = (d + 1) * m" by (simp add: algebra_simps)
  also have "\<dots> \<le> n * m" using assms m0 by (intro mult_right_mono) simp_all
  finally have "d * m + j < n * m" .
  moreover have "0 \<le> d * m + j" using assms m0 by simp
  ultimately show ?thesis by simp
qed

lemma prod_nonzero_factor:
  fixes cs :: "int \<Rightarrow> real"
  assumes "k * (\<Prod>j\<in>{0..<nr}. cs j) \<noteq> 0" "0 \<le> j" "j < nr"
  shows "cs j \<noteq> 0"
proof
  assume "cs j = 0"
  then have "(\<Prod>j\<in>{0..<nr}. cs j) = 0" using assms(2,3) by (auto intro: bexI[of _ j])
  then show False using assms(1) by simp
qed

text \<open>
  Claim C3.  Take a record with \<open>nr\<close> reactants and \<open>np\<close> products whose header,
  rate constant, reactant indices \<open>rs\<close>, yields \<open>ys\<close> and Jacobian ids \<open>sl\<close> can be
  read, the reactant concentrations being \<open>cs\<close> and every id lying inside the
  data array \<open>J\<close>, and let the rate \<open>k \<cdot> \<Prod> cs\<close> be nonzero.  Then
  \<open>rxn_arrhenius_calc_jac_contrib\<close> returns, no concentration is 0, and the entry
  of every slot \<open>s\<close> of the data array is the old entry, minus \<open>rate / cs j\<close> for
  every pair of a dependent reactant \<open>d\<close> and an independent reactant \<open>j\<close> whose id
  \<open>sl (d \<cdot> nr + j)\<close> is \<open>s\<close>, plus \<open>ys d \<cdot> rate / cs j\<close> for every pair of a dependent
  product \<open>d\<close> and an independent reactant \<open>j\<close> whose id \<open>sl (nr \<cdot> nr + d \<cdot> nr + j)\<close>
  is \<open>s\<close>.  When the ids are distinct, each sum has exactly one term for the slot
  of a pair and none for any other slot.
\<close>

theorem jac_contrib_entries:
  assumes nr: "NUM_REACT buf p = Some nr" and np: "NUM_PROD buf p = Some np"
    and nr0: "0 \<le> nr" and np0: "0 \<le> np"
    and k: "RATE_CONSTANT buf (p + INT_DATA_SIZE nr np) = Some k"
    and reads: "\<forall>j. 0 \<le> j \<and> j < nr \<longrightarrow>
                  REACT buf p j = Some (rs j) \<and> arr_get state (rs j) = Some (cs j)"
    and ylds: "\<forall>d. 0 \<le> d \<and> d < np \<longrightarrow> yield buf (p + INT_DATA_SIZE nr np) d = Some (ys d)"
    and slots: "\<forall>x. 0 \<le> x \<and> x < nr * (nr + np) \<longrightarrow>
                  JAC_ID buf p nr np x = Some (sl x) \<and> 0 \<le> sl x \<and> sl x < int (length J)"
    and rate: "rate = k * (\<Prod>j\<in>{0..<nr}. cs j)" and nz: "rate \<noteq> 0"
  shows "\<exists>J'. rxn_arrhenius_calc_jac_contrib state J buf p
                 = Some (J', p + INT_DATA_SIZE nr np + FLOAT_DATA_SIZE np) \<and>
              length J' = length J \<and>
              (\<forall>j. 0 \<le> j \<and> j < nr \<longrightarrow> cs j \<noteq> 0) \<and>
              (\<forall>s. s < length J \<longrightarrow>
                 J' ! s = J ! s
                   - (\<Sum>d\<in>{0..<nr}. \<Sum>j\<in>{0..<nr}.
                        if sl (d * nr + j) = int s then rate / cs j else 0)
                   + (\<Sum>d\<in>{0..<np}. \<Sum>j\<in>{0..<nr}.
                        if sl (nr * nr + d * nr + j) = int s then ys d * rate / cs j else 0))"
proof -
  have rl: "rate_loop state buf p nr 0 k = Some rate"
    using rate_loop_prod[of 0 nr buf p rs state cs k] reads rate by simp
  have s1: "\<forall>d j. 0 \<le> d \<and> d < nr \<and> 0 \<le> j \<and> j < nr \<longrightarrow>
      JAC_ID buf p nr np (0 + (d - 0) * nr + j) = Some (sl (d * nr + j)) \<and>
      0 \<le> sl (d * nr + j) \<and> sl (d * nr + j) < int (length J)"
  proof (intro allI impI)
    fix d j assume dj: "0 \<le> d \<and> d < nr \<and> 0 \<le> j \<and> j < nr"
    then have b: "0 \<le> d * nr + j \<and> d * nr + j < nr * nr"
      using pair_index_bound[of d nr j nr] by simp
    have "nr * nr \<le> nr * (nr + np)" using nr0 np0 by (simp add: algebra_simps)
    then have "0 \<le> d * nr + j \<and> d * nr + j < nr * (nr + np)" using b by simp
    then have "JAC_ID buf p nr np (d * nr + j) = Some (sl (d * nr + j)) \<and>
      0 \<le> sl (d * nr + j) \<and> sl (d * nr + j) < int (length J)"
      using slots by blast
    then show "JAC_ID buf p nr np (0 + (d - 0) * nr + j) = Some (sl (d * nr + j)) \<and>
      0 \<le> sl (d * nr + j) \<and> sl (d * nr + j) < int (length J)"
      by simp
  qed
  have z: "(0::int) \<le> 0" by simp
  from jac_react_outer_spec[OF reads s1 z, of rate] obtain J1 where
    r1: "jac_react_outer state buf p nr np rate 0 0 J
           = Some (J1, 0 + (if 0 < nr then (nr - 0) * nr else 0))"
    and len1: "length J1 = length J"
    and val1: "\<forall>s. s < length J \<longrightarrow>
        J1 ! s = J ! s - (\<Sum>d\<in>{0..<nr}. \<Sum>j\<in>{0..<nr}.
                             if sl (d * nr + j) = int s then rate / cs j else 0)"
    by blast
  have e1: "0 + (if 0 < nr then (nr - 0) * nr else 0) = nr * nr"
    using nr0 by (cases "nr = 0") simp_all
  have s2: "\<forall>d j. 0 \<le> d \<and> d < np \<and> 0 \<le> j \<and> j < nr \<longrightarrow>
      JAC_ID buf p nr np (nr * nr + (d - 0) * nr + j) = Some (sl (nr * nr + d * nr + j)) \<and>
      0 \<le> sl (nr * nr + d * nr + j) \<and> sl (nr * nr + d * nr + j) < int (length J1)"
  proof (intro allI impI)
    fix d j assume dj: "0 \<le> d \<and> d < np \<and> 0 \<le> j \<and> j < nr"
    then have b: "0 \<le> d * nr + j \<and> d * nr + j < np * nr"
      using pair_index_bound[of d np j nr] by simp
    have "0 \<le> nr * nr" by simp
    moreover have "nr * nr + np * nr = nr * (nr + np)" by (simp add: algebra_simps)
    ultimately have "0 \<le> nr * nr + d * nr + j \<and> nr * nr + d * nr + j < nr * (nr + np)"
      using b by linarith
    then have "JAC_ID buf p nr np (nr * nr + d * nr + j) = Some (sl (nr * nr + d * nr + j)) \<and>
      0 \<le> sl (nr * nr + d * nr + j) \<and> sl (nr * nr + d * nr + j) < int (length J)"
      using slots by blast
    then show "JAC_ID buf p nr np (nr * nr + (d - 0) * nr + j) = Some (sl (nr * nr + d * nr + j)) \<and>
      0 \<le> sl (nr * nr + d * nr + j) \<and> sl (nr * nr + d * nr + j) < int (length J1)"
      using len1 by simp
  qed
  from jac_prod_outer_spec[OF reads s2 ylds z nr0, of rate] obtain J2 where
    r2: "jac_prod_outer state buf p nr np (p + INT_DATA_SIZE nr np) rate 0 (nr * nr) J1
           = Some (J2, nr * nr + (if 0 < np then (np - 0) * nr else 0))"
    and len2: "length J2 = length J1"
    and val2: "\<forall>s. s < length J1 \<longrightarrow>
        J2 ! s = J1 ! s + (\<Sum>d\<in>{0..<np}. \<Sum>j\<in>{0..<nr}.
                              if sl (nr * nr + d * nr + j) = int s then ys d * rate / cs j else 0)"
    by blast
  have run: "rxn_arrhenius_calc_jac_contrib state J buf p
               = Some (J2, p + INT_DATA_SIZE nr np + FLOAT_DATA_SIZE np)"
    using nr np k rl nz r1 r2 unfolding e1
    by (simp add: rxn_arrhenius_calc_jac_contrib_def Let_def)
  have cz: "\<forall>j. 0 \<le> j \<and> j < nr \<longrightarrow> cs j \<noteq> 0"
    using prod_nonzero_factor[where k=k and nr=nr and cs=cs] nz rate by blast
  have v: "\<forall>s. s < length J \<longrightarrow>
             J2 ! s = J ! s
               - (\<Sum>d\<in>{0..<nr}. \<Sum>j\<in>{0..<nr}.
                    if sl (d * nr + j) = int s then rate / cs j else 0)
               + (\<Sum>d\<in>{0..<np}. \<Sum>j\<in>{0..<nr}.
                    if sl (nr * nr + d * nr + j) = int s then ys d * rate / cs j else 0)"
    using val1 val2 len1 by simp
  show ?thesis using run len1 len2 cz v by auto
qed

theorem jac_contrib_entries_witness:
  "NUM_REACT (encode_rxn rxnAB_P) 0 = Some 2 \<and> NUM_PROD (encode_rxn rxnAB_P) 0 = Some 1 \<and>
   RATE_CONSTANT (encode_rxn rxnAB_P) (0 + INT_DATA_SIZE 2 1) = Some 1 \<and>
   REACT (encode_rxn rxnAB_P) 0 0 = Some 0 \<and> REACT (encode_rxn rxnAB_P) 0 1 = Some 1 \<and>
   arr_get [2, 3, 0 :: real] 0 = Some 2 \<and> arr_get [2, 3, 0 :: real] 1 = Some 3 \<and>
   yield (encode_rxn rxnAB_P) (0 + INT_DATA_SIZE 2 1) 0 = Some 1 \<and>
   JAC_ID (encode_rxn rxnAB_P) 0 2 1 5 = Some 5 \<and>
   (6::real) = 1 * (\<Prod>j\<in>{0..<2::int}. if j = 0 then 2 else 3) \<and> (6::real) \<noteq> 0 \<and>
   rxn_arrhenius_calc_jac_contrib [2, 3, 0] [0, 0, 0, 0, 0, 0] (encode_rxn rxnAB_P) 0
     = Some ([- 3, - 2, - 3, - 2, 3, 2], 22) \<and>
   (\<exists>J'. rxn_arrhenius_calc_jac_contrib [2, 3, 0] [0, 0, 0, 0, 0, 0] (encode_rxn rxnAB_P) 0
            = Some (J', 0 + INT_DATA_SIZE 2 1 + FLOAT_DATA_SIZE 1) \<and>
          length J' = length [0, 0, 0, 0, 0, 0 :: real] \<and>
          (\<forall>j. 0 \<le> j \<and> j < 2 \<longrightarrow> (if j = 0 then 2 else 3 :: real) \<noteq> 0) \<and>
          (\<forall>s. s < length [0, 0, 0, 0, 0, 0 :: real] \<longrightarrow>
             J' ! s = [0, 0, 0, 0, 0, 0] ! s
               - (\<Sum>d\<in>{0..<2}. \<Sum>j\<in>{0..<2}.
                    if d * 2 + j = int s then 6 / (if j = 0 then 2 else 3) else 0)
               + (\<Sum>d\<in>{0..<1}. \<Sum>j\<in>{0..<2}.
                    if 2 * 2 + d * 2 + j = int s then 1 * 6 / (if j = 0 then 2 else 3) else 0)))"
proof -
  have nr: "NUM_REACT (encode_rxn rxnAB_P) 0 = Some 2"
    and np: "NUM_PROD (encode_rxn rxnAB_P) 0 = Some 1"
    and k: "RATE_CONSTANT (encode_rxn rxnAB_P) (0 + INT_DATA_SIZE 2 1) = Some 1"
    and r0: "REACT (encode_rxn rxnAB_P) 0 0 = Some 0"
    and r1: "REACT (encode_rxn rxnAB_P) 0 1 = Some 1"
    and c0: "arr_get [2, 3, 0 :: real] 0 = Some 2"
    and c1: "arr_get [2, 3, 0 :: real] 1 = Some 3"
    and y0: "yield (encode_rxn rxnAB_P) (0 + INT_DATA_SIZE 2 1) 0 = Some 1"
    and j5: "JAC_ID (encode_rxn rxnAB_P) 0 2 1 5 = Some 5"
    by (simp_all add: encode_rxn_def rxnAB_P_def macro_defs)
  have nr0: "(0::int) \<le> 2" and np0: "(0::int) \<le> 1" by simp_all
  have ivl: "{0..<2::int} = {0, 1}" by auto
  have rate: "(6::real) = 1 * (\<Prod>j\<in>{0..<2::int}. if j = 0 then 2 else 3)"
    by (simp add: ivl)
  have nz: "(6::real) \<noteq> 0" by simp
  have reads: "\<forall>j. 0 \<le> j \<and> j < 2 \<longrightarrow>
      REACT (encode_rxn rxnAB_P) 0 j = Some ((\<lambda>j. j) j) \<and>
      arr_get [2, 3, 0 :: real] ((\<lambda>j. j) j) = Some ((\<lambda>j. if j = 0 then 2 else 3) j)"
  proof (intro allI impI)
    fix j :: int assume "0 \<le> j \<and> j < 2"
    then have "j = 0 \<or> j = 1" by auto
    then show "REACT (encode_rxn rxnAB_P) 0 j = Some ((\<lambda>j. j) j) \<and>
      arr_get [2, 3, 0 :: real] ((\<lambda>j. j) j) = Some ((\<lambda>j. if j = 0 then 2 else 3) j)"
      using r0 r1 c0 c1 by auto
  qed
  have ylds: "\<forall>d. 0 \<le> d \<and> d < 1 \<longrightarrow>
      yield (encode_rxn rxnAB_P) (0 + INT_DATA_SIZE 2 1) d = Some ((\<lambda>_. 1) d)"
  proof (intro allI impI)
    fix d :: int assume "0 \<le> d \<and> d < 1"
    then have "d = 0" by simp
    then show "yield (encode_rxn rxnAB_P) (0 + INT_DATA_SIZE 2 1) d = Some ((\<lambda>_. 1) d)"
      using y0 by simp
  qed
  have slots: "\<forall>x. 0 \<le> x \<and> x < 2 * (2 + 1) \<longrightarrow>
      JAC_ID (encode_rxn rxnAB_P) 0 2 1 x = Some ((\<lambda>x. x) x) \<and> 0 \<le> (\<lambda>x. x) x \<and>
      (\<lambda>x. x) x < int (length [0, 0, 0, 0, 0, 0 :: real])"
  proof (intro allI impI)
    fix x :: int assume "0 \<le> x \<and> x < 2 * (2 + 1)"
    then have "x = 0 \<or> x = 1 \<or> x = 2 \<or> x = 3 \<or> x = 4 \<or> x = 5" by auto
    then show "JAC_ID (encode_rxn rxnAB_P) 0 2 1 x = Some ((\<lambda>x. x) x) \<and> 0 \<le> (\<lambda>x. x) x \<and>
      (\<lambda>x. x) x < int (length [0, 0, 0, 0, 0, 0 :: real])"
      by (auto simp: encode_rxn_def rxnAB_P_def macro_defs)
  qed
  have run: "rxn_arrhenius_calc_jac_contrib [2, 3, 0] [0, 0, 0, 0, 0, 0] (encode_rxn rxnAB_P) 0
     = Some ([- 3, - 2, - 3, - 2, 3, 2], 22)"
    by (simp add: rxn_arrhenius_calc_jac_contrib_def encode_rxn_def rxnAB_P_def macro_defs loop_simps)
  note inst = jac_contrib_entries[OF nr np nr0 np0 k reads ylds slots rate nz]
  show ?thesis
    using nr np k r0 r1 c0 c1 y0 j5 rate nz run inst by simp
qed

section \<open>Defects\<close>

lemma solver_run_never_fails:
  "solver_run r CVode a sd state env t_initial t_final \<noteq> Some (Returned (PHLEX_SOLVER_FAIL, x))"
  and "solver_run r CVode a sd state env t_initial t_final \<noteq> Some (Exited c)"
  by (auto simp: solver_run_unfold Let_def const_defs split: Option.bind_splits)

text \<open>
  Claim C4.  In \<open>check_flag\<close> the test of the integer flag is \<open>err_flag < 0\<close>, where
  \<open>err_flag\<close> is the pointer and not the integer it points to.  No address is below
  0, so with \<open>opt = 1\<close> the function returns \<open>PHLEX_SOLVER_SUCCESS\<close> and prints
  nothing whatever the flag is, \<open>check_flag_fail\<close> does not exit, and \<open>solver_run\<close>
  returns \<open>PHLEX_SOLVER_SUCCESS\<close> when \<open>CVode\<close> returns the flag \<open>-1\<close>.
\<close>

theorem check_flag_ignores_negative_flag:
  "check_flag \<lparr>addr = a, deref_int = - 1\<rparr> ''CVode'' 1 = (PHLEX_SOLVER_SUCCESS, []) \<and>
   check_flag \<lparr>addr = a, deref_int = v\<rparr> func_name 1 = (PHLEX_SOLVER_SUCCESS, []) \<and>
   check_flag_fail \<lparr>addr = a, deref_int = v\<rparr> func_name 1 = (Returned (), []) \<and>
   solver_run 0 (cvode_stub (- 1) [1, 2]) 4096 sd0 [5, 7, 9] [300, 101325] 0 1
     = Some (Returned (PHLEX_SOLVER_SUCCESS, sd0\<lparr>sd_y := [5, 9]\<rparr>)) \<and>
   PHLEX_SOLVER_SUCCESS \<noteq> PHLEX_SOLVER_FAIL"
  using check_flag_opt1 check_flag_fail_opt1 solver_run_sd0[of "- 1"]
  by (simp add: const_defs)

lemma n_dep_var_loop_count:
  "0 \<le> i \<Longrightarrow> i \<le> n \<Longrightarrow> n \<le> int (length vt) \<Longrightarrow>
   n_dep_var_loop n vt i c = Some (c + int (dep_index vt (nat n)) - int (dep_index vt (nat i)))"
proof (induction n vt i c rule: n_dep_var_loop.induct)
  case (1 n vt i c)
  show ?case
  proof (cases "i < n")
    case False
    then have "i = n" using "1.prems" by simp
    then show ?thesis by (subst n_dep_var_loop.simps) simp
  next
    case True
    have g: "arr_get vt i = Some (vt ! nat i)" using True "1.prems" by (simp add: arr_get_def)
    have ilen: "nat i < length vt" using True "1.prems" by simp
    have nat_suc: "nat (i + 1) = Suc (nat i)" using "1.prems" by simp
    have ih: "n_dep_var_loop n vt (i + 1) (if vt ! nat i = CHEM_SPEC_VARIABLE then c + 1 else c)
        = Some ((if vt ! nat i = CHEM_SPEC_VARIABLE then c + 1 else c) + int (dep_index vt (nat n)) - int (dep_index vt (nat (i + 1))))"
      using "1.IH"[OF True g] True "1.prems" by simp
    show ?thesis
      using True g ih dep_index_Suc[OF ilen] nat_suc
      by (subst n_dep_var_loop.simps) (simp split: if_splits)
  qed
qed

lemma n_dep_var_loop_past_end: "n \<le> i \<Longrightarrow> n_dep_var_loop n vt i c = Some c"
  by (subst n_dep_var_loop.simps) simp


text \<open>
  Claim C5.  The counter of the loop that counts the solver variables has no
  initial value.  For one state variable of type \<open>CHEM_SPEC_VARIABLE\<close> and a counter
  that happens to start at 1, the loop body never runs: \<open>n_dep_var\<close> is 0 where
  the number of variable entries is 1, the solver vector and the tolerance vector
  get length 0, and the tolerance loop, which does start at 0, writes past the end
  of the tolerance vector.
\<close>

theorem n_dep_var_counter_uninitialised:
  "n_dep_var_loop 1 [CHEM_SPEC_VARIABLE] 1 0 = Some 0 \<and>
   dep_index [CHEM_SPEC_VARIABLE] 1 = 1 \<and>
   N_VNew_Serial 0 = [] \<and>
   abstol_loop 1 [CHEM_SPEC_VARIABLE] [1 / 1000] 0 0 (N_VNew_Serial 0) = None \<and>
   solver_initialize (ext_ok\<lparr>uninit_i := 1\<rparr>) 1 [CHEM_SPEC_VARIABLE] [1 / 1000] (1 / 10000)
     100 10 0 1 0 = None"
  by (simp add: solver_initialize_def ext_ok_def N_VNew_Serial_def dep_index_def
      macro_defs loop_simps const_defs seq_check_def check_flag_fail_def check_flag_def
      int_flag_def)

lemma deriv_loop1_spec:
  assumes "\<forall>j. i \<le> j \<and> j < nr \<longrightarrow>
           DERIV_ID buf p nr np (e + (j - i)) = Some (g j) \<and> 0 \<le> g j \<and> g j < int (length deriv)"
  shows "\<exists>d'. deriv_loop1 buf p nr np rate i e deriv
                 = Some (d', e + (if i < nr then nr - i else 0)) \<and>
              length d' = length deriv \<and>
              (\<forall>s. s < length deriv \<longrightarrow>
                 d' ! s = deriv ! s - (\<Sum>j\<in>{i..<nr}. if g j = int s then rate else 0))"
  using assms
proof (induction buf p nr np rate i e deriv rule: deriv_loop1.induct)
  case (1 buf p nr np rate i e deriv)
  show ?case
  proof (cases "i < nr")
    case False
    then show ?thesis by (subst deriv_loop1.simps) simp
  next
    case True
    have slot: "DERIV_ID buf p nr np e = Some (g i)" and g0: "0 \<le> g i"
      and g1: "g i < int (length deriv)"
      using "1.prems" True by (auto dest: spec[of _ i])
    have old: "arr_get deriv (g i) = Some (deriv ! nat (g i))" using g0 g1 by (rule arr_get_Some)
    define d1 where "d1 = deriv[nat (g i) := deriv ! nat (g i) - rate]"
    have set: "arr_set deriv (g i) (deriv ! nat (g i) - rate) = Some d1"
      unfolding d1_def using g0 g1 by (rule arr_set_Some)
    have len1: "length d1 = length deriv" by (simp add: d1_def)
    have p2: "\<forall>j. i + 1 \<le> j \<and> j < nr \<longrightarrow>
        DERIV_ID buf p nr np (e + 1 + (j - (i + 1))) = Some (g j) \<and> 0 \<le> g j \<and> g j < int (length d1)"
    proof (intro allI impI)
      fix j assume j: "i + 1 \<le> j \<and> j < nr"
      have "e + 1 + (j - (i + 1)) = e + (j - i)" by simp
      then show "DERIV_ID buf p nr np (e + 1 + (j - (i + 1))) = Some (g j) \<and> 0 \<le> g j \<and> g j < int (length d1)"
        using "1.prems" j len1 by simp
    qed
    from "1.IH"[OF True slot old set p2] obtain d' where
      rec: "deriv_loop1 buf p nr np rate (i + 1) (e + 1) d1
              = Some (d', e + 1 + (if i + 1 < nr then nr - (i + 1) else 0))"
      and len: "length d' = length d1"
      and val: "\<forall>s. s < length d1 \<longrightarrow>
          d' ! s = d1 ! s - (\<Sum>j\<in>{i + 1..<nr}. if g j = int s then rate else 0)"
      by blast
    have ptr: "e + 1 + (if i + 1 < nr then nr - (i + 1) else 0) = e + (if i < nr then nr - i else 0)"
      using True by simp
    have run: "deriv_loop1 buf p nr np rate i e deriv
                 = Some (d', e + (if i < nr then nr - i else 0))"
      using True slot old set rec ptr by (subst deriv_loop1.simps) simp
    have v: "\<forall>s. s < length deriv \<longrightarrow>
        d' ! s = deriv ! s - (\<Sum>j\<in>{i..<nr}. if g j = int s then rate else 0)"
    proof (intro allI impI)
      fix s assume s: "s < length deriv"
      have a: "d1 ! s = deriv ! s - (if g i = int s then rate else 0)"
        using g0 g1 s by (auto simp: d1_def nth_list_update)
      have "d' ! s = d1 ! s - (\<Sum>j\<in>{i + 1..<nr}. if g j = int s then rate else 0)"
        using val s len1 by simp
      then show "d' ! s = deriv ! s - (\<Sum>j\<in>{i..<nr}. if g j = int s then rate else 0)"
        unfolding a sum_int_ivl[OF True] by simp
    qed
    show ?thesis using run len len1 v by auto
  qed
qed

lemma deriv_loop2_spec:
  assumes "\<forall>j. i \<le> j \<and> j < nr \<longrightarrow>
           DERIV_ID buf p nr np (e + (j - i)) = Some (g j) \<and> 0 \<le> g j \<and> g j < int (length deriv)"
    and "\<forall>j. i \<le> j \<and> j < nr \<longrightarrow> yield buf fd j = Some (ys j)"
  shows "\<exists>d'. deriv_loop2 buf p nr np fd rate i e deriv
                 = Some (d', e + (if i < nr then nr - i else 0)) \<and>
              length d' = length deriv \<and>
              (\<forall>s. s < length deriv \<longrightarrow>
                 d' ! s = deriv ! s + (\<Sum>j\<in>{i..<nr}. if g j = int s then rate * ys j else 0))"
  using assms
proof (induction buf p nr np fd rate i e deriv rule: deriv_loop2.induct)
  case (1 buf p nr np fd rate i e deriv)
  show ?case
  proof (cases "i < nr")
    case False
    then show ?thesis by (subst deriv_loop2.simps) simp
  next
    case True
    have slot: "DERIV_ID buf p nr np e = Some (g i)" and g0: "0 \<le> g i"
      and g1: "g i < int (length deriv)"
      using "1.prems"(1) True by (auto dest: spec[of _ i])
    have y: "yield buf fd i = Some (ys i)" using "1.prems"(2) True by simp
    have old: "arr_get deriv (g i) = Some (deriv ! nat (g i))" using g0 g1 by (rule arr_get_Some)
    define d1 where "d1 = deriv[nat (g i) := deriv ! nat (g i) + rate * ys i]"
    have set: "arr_set deriv (g i) (deriv ! nat (g i) + rate * ys i) = Some d1"
      unfolding d1_def using g0 g1 by (rule arr_set_Some)
    have len1: "length d1 = length deriv" by (simp add: d1_def)
    have p2: "\<forall>j. i + 1 \<le> j \<and> j < nr \<longrightarrow>
        DERIV_ID buf p nr np (e + 1 + (j - (i + 1))) = Some (g j) \<and> 0 \<le> g j \<and> g j < int (length d1)"
    proof (intro allI impI)
      fix j assume j: "i + 1 \<le> j \<and> j < nr"
      have "e + 1 + (j - (i + 1)) = e + (j - i)" by simp
      then show "DERIV_ID buf p nr np (e + 1 + (j - (i + 1))) = Some (g j) \<and> 0 \<le> g j \<and> g j < int (length d1)"
        using "1.prems"(1) j len1 by simp
    qed
    have p3: "\<forall>j. i + 1 \<le> j \<and> j < nr \<longrightarrow> yield buf fd j = Some (ys j)"
      using "1.prems"(2) by simp
    from "1.IH"[OF True slot y old set p2 p3] obtain d' where
      rec: "deriv_loop2 buf p nr np fd rate (i + 1) (e + 1) d1
              = Some (d', e + 1 + (if i + 1 < nr then nr - (i + 1) else 0))"
      and len: "length d' = length d1"
      and val: "\<forall>s. s < length d1 \<longrightarrow>
          d' ! s = d1 ! s + (\<Sum>j\<in>{i + 1..<nr}. if g j = int s then rate * ys j else 0)"
      by blast
    have ptr: "e + 1 + (if i + 1 < nr then nr - (i + 1) else 0) = e + (if i < nr then nr - i else 0)"
      using True by simp
    have run: "deriv_loop2 buf p nr np fd rate i e deriv
                 = Some (d', e + (if i < nr then nr - i else 0))"
      using True slot y old set rec ptr by (subst deriv_loop2.simps) simp
    have v: "\<forall>s. s < length deriv \<longrightarrow>
        d' ! s = deriv ! s + (\<Sum>j\<in>{i..<nr}. if g j = int s then rate * ys j else 0)"
    proof (intro allI impI)
      fix s assume s: "s < length deriv"
      have a: "d1 ! s = deriv ! s + (if g i = int s then rate * ys i else 0)"
        using g0 g1 s by (auto simp: d1_def nth_list_update)
      have "d' ! s = d1 ! s + (\<Sum>j\<in>{i + 1..<nr}. if g j = int s then rate * ys j else 0)"
        using val s len1 by simp
      then show "d' ! s = deriv ! s + (\<Sum>j\<in>{i..<nr}. if g j = int s then rate * ys j else 0)"
        unfolding a sum_int_ivl[OF True] by simp
    qed
    show ?thesis using run len len1 v by auto
  qed
qed

text \<open>What \<open>rxn_arrhenius_calc_deriv_contrib\<close> does for a nonzero rate, in general:
  slot \<open>s\<close> loses \<open>rate\<close> for every \<open>j\<close> below the reactant count whose id
  \<open>_DERIV_ID_(j)\<close> is \<open>s\<close>, and gains \<open>rate \<cdot> _yield_(j)\<close> for every \<open>j\<close> below the
  reactant count, again, whose id \<open>_DERIV_ID_(_NUM_REACT_ + j)\<close> is \<open>s\<close>.  The number
  of products does not occur.\<close>

lemma deriv_contrib_entries:
  assumes nr: "NUM_REACT buf p = Some nr" and np: "NUM_PROD buf p = Some np"
    and nr0: "0 \<le> nr"
    and k: "RATE_CONSTANT buf (p + INT_DATA_SIZE nr np) = Some k"
    and reads: "\<forall>j. 0 \<le> j \<and> j < nr \<longrightarrow>
                  REACT buf p j = Some (rs j) \<and> arr_get state (rs j) = Some (cs j)"
    and ylds: "\<forall>j. 0 \<le> j \<and> j < nr \<longrightarrow> yield buf (p + INT_DATA_SIZE nr np) j = Some (ys j)"
    and slots: "\<forall>x. 0 \<le> x \<and> x < 2 * nr \<longrightarrow>
                  DERIV_ID buf p nr np x = Some (sl x) \<and> 0 \<le> sl x \<and> sl x < int (length deriv)"
    and rate: "rate = k * (\<Prod>j\<in>{0..<nr}. cs j)" and nz: "rate \<noteq> 0"
  shows "\<exists>d'. rxn_arrhenius_calc_deriv_contrib state deriv buf p
                 = Some (d', p + INT_DATA_SIZE nr np + FLOAT_DATA_SIZE np) \<and>
              length d' = length deriv \<and>
              (\<forall>s. s < length deriv \<longrightarrow>
                 d' ! s = deriv ! s
                   - (\<Sum>j\<in>{0..<nr}. if sl j = int s then rate else 0)
                   + (\<Sum>j\<in>{0..<nr}. if sl (nr + j) = int s then rate * ys j else 0))"
proof -
  have rl: "rate_loop state buf p nr 0 k = Some rate"
    using rate_loop_prod[of 0 nr buf p rs state cs k] reads rate by simp
  have s1: "\<forall>j. 0 \<le> j \<and> j < nr \<longrightarrow>
      DERIV_ID buf p nr np (0 + (j - 0)) = Some (sl j) \<and> 0 \<le> sl j \<and> sl j < int (length deriv)"
    using slots by simp
  from deriv_loop1_spec[OF s1, of rate] obtain d1 where
    r1: "deriv_loop1 buf p nr np rate 0 0 deriv = Some (d1, 0 + (if 0 < nr then nr - 0 else 0))"
    and len1: "length d1 = length deriv"
    and val1: "\<forall>s. s < length deriv \<longrightarrow>
        d1 ! s = deriv ! s - (\<Sum>j\<in>{0..<nr}. if sl j = int s then rate else 0)"
    by blast
  have e1: "0 + (if 0 < nr then nr - 0 else 0) = nr" using nr0 by simp
  have s2: "\<forall>j. 0 \<le> j \<and> j < nr \<longrightarrow>
      DERIV_ID buf p nr np (nr + (j - 0)) = Some (sl (nr + j)) \<and> 0 \<le> sl (nr + j) \<and>
      sl (nr + j) < int (length d1)"
    using slots len1 by simp
  from deriv_loop2_spec[OF s2 ylds, of rate] obtain d2 where
    r2: "deriv_loop2 buf p nr np (p + INT_DATA_SIZE nr np) rate 0 nr d1
           = Some (d2, nr + (if 0 < nr then nr - 0 else 0))"
    and len2: "length d2 = length d1"
    and val2: "\<forall>s. s < length d1 \<longrightarrow>
        d2 ! s = d1 ! s + (\<Sum>j\<in>{0..<nr}. if sl (nr + j) = int s then rate * ys j else 0)"
    by blast
  have run: "rxn_arrhenius_calc_deriv_contrib state deriv buf p
               = Some (d2, p + INT_DATA_SIZE nr np + FLOAT_DATA_SIZE np)"
    using nr np k rl nz r1 r2 unfolding e1
    by (simp add: rxn_arrhenius_calc_deriv_contrib_def Let_def)
  have v: "\<forall>s. s < length deriv \<longrightarrow>
             d2 ! s = deriv ! s
               - (\<Sum>j\<in>{0..<nr}. if sl j = int s then rate else 0)
               + (\<Sum>j\<in>{0..<nr}. if sl (nr + j) = int s then rate * ys j else 0)"
    using val1 val2 len1 by simp
  show ?thesis using run len1 len2 v by auto
qed

text \<open>
  Claim C1.  The loop of \<open>rxn_arrhenius_calc_deriv_contrib\<close> that adds to the
  product slots runs \<open>_NUM_REACT_\<close> times, not \<open>_NUM_PROD_\<close> times.  For \<open>A \<rightarrow> B + C\<close>
  with \<open>[A] = 2\<close> and rate constant 1 the rate is 2: the slot of \<open>A\<close> gets \<open>-2\<close>, the
  slot of \<open>B\<close> gets \<open>+2\<close>, and the slot of \<open>C\<close>, the second product, stays 0.  For
  \<open>A + B \<rightarrow> P\<close> with \<open>[A] = 2\<close>, \<open>[B] = 3\<close>, the example of the specification, the
  second pass of that loop reads \<open>_yield_(1)\<close> one cell past the record (undefined;
  \<open>g\<close> when a real \<open>g\<close> lies there) and adds \<open>6 g\<close> to the slot named by \<open>_JAC_ID_(0)\<close>,
  here the slot of \<open>A\<close>.
\<close>

theorem deriv_contrib_product_loop_bound:
  "rxn_arrhenius_calc_deriv_contrib [2, 0, 0] [0, 0, 0] (encode_rxn rxnA_BC) 0
     = Some ([- 2, 2, 0], 20) \<and>
   rxn_arrhenius_calc_deriv_contrib [2, 3, 0] [0, 0, 0] (encode_rxn rxnAB_P) 0 = None \<and>
   rxn_arrhenius_calc_deriv_contrib [2, 3, 0] [0, 0, 0] (encode_rxn rxnAB_P @ [RealCell g]) 0
     = Some ([6 * g - 6, - 6, 6], 22)"
  by (simp add: rxn_arrhenius_calc_deriv_contrib_def encode_rxn_def rxnA_BC_def rxnAB_P_def
      macro_defs loop_simps)

text \<open>
  Claim C2.  The \<open>n_jac_elem\<close> that \<open>get_jac_init\<close> passes to \<open>SUNSparseMatrix\<close> is
  never assigned (the counting loops count in a variable of their own), and the
  flag tested for column \<open>i_col\<close> and row \<open>i_row\<close> is \<open>jac_struct[i_col][i_row]\<close>,
  while the marking pass sets \<open>jac_struct[i_dep][i_ind]\<close>, dependent species
  first.  For two solver variables and the record \<open>A \<rightarrow> B + C\<close> the marking pass
  sets the flags (row 0, column 0) and (row 1, column 0), two true cells.  The
  matrix returned has \<open>NNZ\<close> equal to whatever the unassigned variable holds (5
  below; with 1 the second entry is written past the arrays), and its entries
  are rows 0 of column 0 and 0 of column 1, not rows 0 and 1 of column 0.
\<close>

theorem get_jac_init_unassigned_count_and_transposed:
  "rxn_get_used_jac_elem (IntCell 1 # encode_rxn rxnA_BC) [[False, False], [False, False]]
     = Some [[True, False], [True, False]] \<and>
   jac_count [[True, False], [True, False]] 2 0 0 = Some 2 \<and>
   get_jac_init 5 2 (IntCell 1 # encode_rxn rxnA_BC)
     = Some \<lparr>SM_ROWS = 2, SM_COLUMNS = 2, SM_NNZ = 5, SM_NP = 2,
              SM_DATA = [1, 1, 0, 0, 0], SM_INDEXVALS = [0, 0, 0, 0, 0],
              SM_INDEXPTRS = [0, 1, 2]\<rparr> \<and>
   get_jac_init 2 2 (IntCell 1 # encode_rxn rxnA_BC)
     = Some \<lparr>SM_ROWS = 2, SM_COLUMNS = 2, SM_NNZ = 2, SM_NP = 2,
              SM_DATA = [1, 1], SM_INDEXVALS = [0, 0], SM_INDEXPTRS = [0, 1, 2]\<rparr> \<and>
   get_jac_init 1 2 (IntCell 1 # encode_rxn rxnA_BC) = None"
  by (simp add: get_jac_init_def rxn_get_used_jac_elem_def rxn_arrhenius_get_used_jac_elem_def
      SUNSparseMatrix_def encode_rxn_def rxnA_BC_def macro_defs loop_simps eval_nat_numeral)

end
